theory Spec2Isabelle
  imports Complex_Main "HOL-Library.Sublist" "HOL-Library.Char_ord" "HOL-Library.List_Lexorder"
begin

section \<open>Python strings as the loader uses them\<close>

text \<open>
  Worksheet cells are Python strings. They are modelled as HOL strings whose characters
  are the code points 0 to 255; text beyond Latin-1 is outside this model. Three library
  operations of \<^verbatim>\<open>str\<close> occur in \<^verbatim>\<open>load_data_from_sheets\<close>: \<^verbatim>\<open>lower()\<close>,
  \<^verbatim>\<open>strip()\<close> and the conversion \<^verbatim>\<open>str(row)\<close> of a list of strings, which prints
  every element with \<^verbatim>\<open>repr\<close>.
\<close>

definition py_lower_char :: "char \<Rightarrow> char" where
  "py_lower_char c =
     (let n = (of_char c :: nat)
      in if (65 \<le> n \<and> n \<le> 90) \<or> (192 \<le> n \<and> n \<le> 222 \<and> n \<noteq> 215)
         then char_of (n + 32) else c)"

definition py_lower :: "string \<Rightarrow> string" where
  "py_lower s = map py_lower_char s"

definition py_isspace :: "char \<Rightarrow> bool" where
  "py_isspace c =
     (let n = (of_char c :: nat)
      in (9 \<le> n \<and> n \<le> 13) \<or> (28 \<le> n \<and> n \<le> 32) \<or> n = 133 \<or> n = 160)"

definition py_strip :: "string \<Rightarrow> string" where
  "py_strip s = rev (dropWhile py_isspace (rev (dropWhile py_isspace s)))"

definition py_isprintable :: "char \<Rightarrow> bool" where
  "py_isprintable c =
     (let n = (of_char c :: nat)
      in (32 \<le> n \<and> n \<le> 126) \<or> (161 \<le> n \<and> n \<noteq> 173))"

definition hex_digit :: "nat \<Rightarrow> char" where
  "hex_digit d = (if d < 10 then char_of (48 + d) else char_of (87 + d))"

text \<open>
  \<^verbatim>\<open>repr\<close> of one character inside the quotes \<open>q\<close>: the quote and the backslash get a
  backslash, tab, line feed and carriage return their letter, every other character
  that is not printable the form \<^verbatim>\<open>\xNN\<close>.
\<close>

definition py_repr_char :: "char \<Rightarrow> char \<Rightarrow> string" where
  "py_repr_char q c =
     (if c = q \<or> c = CHR 0x5C then [CHR 0x5C, c]
      else if c = CHR 0x09 then [CHR 0x5C, CHR ''t'']
      else if c = CHR 0x0A then [CHR 0x5C, CHR ''n'']
      else if c = CHR 0x0D then [CHR 0x5C, CHR ''r'']
      else if \<not> py_isprintable c
        then [CHR 0x5C, CHR ''x'', hex_digit (of_char c div 16), hex_digit (of_char c mod 16)]
      else [c])"

text \<open>
  \<^verbatim>\<open>repr\<close> of a string: single quotes, unless the string holds a single quote and no
  double quote.
\<close>

definition py_repr :: "string \<Rightarrow> string" where
  "py_repr s =
     (let q = (if CHR 0x27 \<in> set s \<and> CHR 0x22 \<notin> set s then CHR 0x22 else CHR 0x27)
      in q # concat (map (py_repr_char q) s) @ [q])"

fun join_comma :: "string list \<Rightarrow> string" where
  "join_comma [] = []"
| "join_comma [x] = x"
| "join_comma (x # y # ys) = x @ '', '' @ join_comma (y # ys)"

definition py_str_list :: "string list \<Rightarrow> string" where
  "py_str_list row = ''['' @ join_comma (map py_repr row) @ '']''"

section \<open>Header-row detection\<close>

definition HEADER_KEYWORDS :: "string list" where
  "HEADER_KEYWORDS = [''batchid'', ''_id'', ''name'', ''converteddate'']"

text \<open>
  The condition of the scan (line 91):
  \<^verbatim>\<open>row and any(col in str(row).lower() for col in [...])\<close>.
\<close>

definition row_matches :: "string list \<Rightarrow> bool" where
  "row_matches row =
     (row \<noteq> [] \<and> list_ex (\<lambda>col. sublist col (py_lower (py_str_list row))) HEADER_KEYWORDS)"

text \<open>
  The loop of lines 89 to 94: \<open>header_row\<close> starts at 0 and is set to the index of the
  first row that satisfies the condition, where the loop stops.
\<close>

fun scan_header :: "nat \<Rightarrow> string list list \<Rightarrow> nat" where
  "scan_header i [] = 0"
| "scan_header i (row # data) = (if row_matches row then i else scan_header (Suc i) data)"

definition find_header_row :: "string list list \<Rightarrow> nat" where
  "find_header_row data = scan_header 0 data"

text \<open>
  Modelled from the spec: the sentence "the first row containing any of a fixed set of
  header keywords (case-insensitive substring match)" is read as: some cell of the row,
  in lower case, has a keyword as a substring.
\<close>

definition spec_row_contains_keyword :: "string list \<Rightarrow> bool" where
  "spec_row_contains_keyword row =
     list_ex (\<lambda>cell. list_ex (\<lambda>col. sublist col (py_lower cell)) HEADER_KEYWORDS) row"

section \<open>Tables\<close>

text \<open>
  A pandas DataFrame is modelled by its column labels, in order and possibly repeated,
  and its rows, each a list of cells in column order. A cell is missing (\<^verbatim>\<open>NaN\<close>,
  \<^verbatim>\<open>NaT\<close>, \<^verbatim>\<open>None\<close>), a string, a number or a timestamp. Numbers are rationals:
  the rounding of \<^verbatim>\<open>float32\<close> is not represented. Timestamps count nanoseconds
  since the epoch, as \<^verbatim>\<open>pd.Timestamp\<close> does.
\<close>

datatype cell = Null | Str string | Num rat | Ts int

record table =
  columns :: "string list"
  rows :: "cell list list"

definition ns_per_day :: int where
  "ns_per_day = 86400000000000"

datatype error =
  RemoteError | IndexError | ValueError | InvalidIndexError | TypeError
  | AttributeError | ZeroDivisionError | KeyError

definition and_then :: "error + 'a \<Rightarrow> ('a \<Rightarrow> error + 'b) \<Rightarrow> error + 'b" where
  "and_then r f = (case r of Inl e \<Rightarrow> Inl e | Inr x \<Rightarrow> f x)"

definition col_index :: "string list \<Rightarrow> string \<Rightarrow> nat" where
  "col_index cols c = length (takeWhile (\<lambda>x. x \<noteq> c) cols)"

text \<open>
  The cell of row \<open>r\<close> under the label \<open>c\<close>: the first column of that label, and a
  missing cell where the row has none. The loader reads a label only after the check
  pandas makes on a repeated one, and in a loaded table the labels that the dashboard
  reads occur at most once (\<open>loaded_labels_unique\<close> below).
\<close>

definition get_cell :: "table \<Rightarrow> string \<Rightarrow> cell list \<Rightarrow> cell" where
  "get_cell T c r = (let i = col_index (columns T) c in if i < length r then r ! i else Null)"

definition series :: "table \<Rightarrow> string \<Rightarrow> cell list" where
  "series T c = map (get_cell T c) (rows T)"

text \<open>
  The assignment \<^verbatim>\<open>df[c] = values\<close>: an existing column is replaced in place, a new
  label is appended as the last column.
\<close>

definition set_col :: "table \<Rightarrow> string \<Rightarrow> cell list \<Rightarrow> table" where
  "set_col T c vs =
     (if c \<in> set (columns T)
      then T\<lparr>rows := map (\<lambda>(r, v). r[col_index (columns T) c := v]) (zip (rows T) vs)\<rparr>
      else \<lparr>columns = columns T @ [c], rows = map (\<lambda>(r, v). r @ [v]) (zip (rows T) vs)\<rparr>)"

text \<open>
  \<^verbatim>\<open>pd.DataFrame(data, columns=cols)\<close> on a list of lists of strings: short rows are
  padded with \<^verbatim>\<open>None\<close> to the longest one, and a width other than the number of
  labels raises \<^verbatim>\<open>ValueError\<close>. No data gives the empty frame with the labels.
\<close>

definition DataFrame :: "string list list \<Rightarrow> string list \<Rightarrow> error + table" where
  "DataFrame data cols =
     (if data = [] then Inr \<lparr>columns = cols, rows = []\<rparr>
      else let width = fold max (map length data) 0
           in if width \<noteq> length cols then Inl ValueError
              else Inr \<lparr>columns = cols,
                        rows = map (\<lambda>r. map Str r @ replicate (width - length r) Null) data\<rparr>)"

section \<open>Loading one worksheet (lines 83 to 111)\<close>

text \<open>
  \<open>data\<close> is what \<^verbatim>\<open>worksheet.get_all_values()\<close> returned. On no rows at all
  \<^verbatim>\<open>data[header_row]\<close> raises \<^verbatim>\<open>IndexError\<close>.
\<close>

definition read_worksheet :: "string list list \<Rightarrow> error + table" where
  "read_worksheet data =
     (if data = [] then Inl IndexError
      else let header_row = find_header_row data
           in DataFrame (drop (header_row + 1) data) (data ! header_row))"

text \<open>
  \<^verbatim>\<open>sheet_df[dst] = sheet_df[src]\<close> for a new label \<open>dst\<close>. Where \<open>src\<close> labels
  several columns the right-hand side is a frame, and the assignment raises.
\<close>

definition copy_column :: "table \<Rightarrow> string \<Rightarrow> string \<Rightarrow> error + table" where
  "copy_column df src dst =
     (if count_list (columns df) src \<noteq> 1 then Inl ValueError
      else Inr (set_col df dst (series df src)))"

definition handle_variations :: "table \<Rightarrow> error + table" where
  "handle_variations sheet_df =
     and_then
       (if ''batch_name'' \<in> set (columns sheet_df) \<and> ''name'' \<notin> set (columns sheet_df)
        then copy_column sheet_df ''batch_name'' ''name'' else Inr sheet_df)
       (\<lambda>sheet_df.
          if ''exam_2'' \<in> set (columns sheet_df) \<and> ''Exam_2'' \<notin> set (columns sheet_df)
          then copy_column sheet_df ''exam_2'' ''Exam_2''
          else if ''exam'' \<in> set (columns sheet_df) \<and> ''Exam_2'' \<notin> set (columns sheet_df)
          then copy_column sheet_df ''exam'' ''Exam_2''
          else Inr sheet_df)"

definition load_worksheet :: "string list list \<Rightarrow> error + table" where
  "load_worksheet data =
     and_then (read_worksheet data)
       (\<lambda>sheet_df. handle_variations (sheet_df\<lparr>columns := map py_strip (columns sheet_df)\<rparr>))"

section \<open>The remote source\<close>

text \<open>
  What the Google Sheets service answers when it is asked. \<open>Unavailable\<close>: obtaining the
  credentials, authorising or opening the spreadsheet raised. \<open>Spreadsheet ss\<close>: the
  spreadsheet opened; \<open>ss\<close> gives the cells of each worksheet that can be read, and a
  worksheet name without an entry is one whose lookup or read raises.
\<close>

type_synonym spreadsheet = "(string \<times> string list list) list"

datatype remote = Unavailable | Spreadsheet spreadsheet

definition WORKSHEET_NAMES :: "string list" where
  "WORKSHEET_NAMES = [''Foundation Data'', ''CUET UG Data'']"

text \<open>
  The loop of lines 80 to 115: a worksheet that raises, while it is fetched or while
  its frame is built, is skipped.
\<close>

definition load_all_worksheets :: "spreadsheet \<Rightarrow> table list" where
  "load_all_worksheets ss =
     concat (map (\<lambda>worksheet_name.
        case map_of ss worksheet_name of
          None \<Rightarrow> []
        | Some data \<Rightarrow> (case load_worksheet data of Inl e \<Rightarrow> [] | Inr sheet_df \<Rightarrow> [sheet_df]))
      WORKSHEET_NAMES)"

section \<open>Normalisation (lines 127 to 163)\<close>

definition union_columns :: "table list \<Rightarrow> string list" where
  "union_columns dfs = rev (remdups (rev (concat (map columns dfs))))"

definition reindex_row :: "table \<Rightarrow> string list \<Rightarrow> cell list \<Rightarrow> cell list" where
  "reindex_row df cols r = map (\<lambda>c. if c \<in> set (columns df) then get_cell df c r else Null) cols"

text \<open>
  \<^verbatim>\<open>pd.concat(all_dfs, ignore_index=True)\<close>. Frames with the same labels are stacked
  as they are. Otherwise the result has every label once, in the order of first
  appearance, each frame is reindexed to it (a column the frame lacks is missing in its
  rows), and a frame with a repeated label cannot be reindexed.
\<close>

definition pd_concat :: "table list \<Rightarrow> error + table" where
  "pd_concat dfs =
     (case dfs of
        [] \<Rightarrow> Inl ValueError
      | df0 # _ \<Rightarrow>
          if list_all (\<lambda>df. columns df = columns df0) dfs
          then Inr \<lparr>columns = columns df0, rows = concat (map rows dfs)\<rparr>
          else if list_ex (\<lambda>df. \<not> distinct (columns df)) dfs then Inl InvalidIndexError
          else Inr \<lparr>columns = union_columns dfs,
                    rows = concat (map (\<lambda>df. map (reindex_row df (union_columns dfs)) (rows df)) dfs)\<rparr>)"

text \<open>
  The two parsers of pandas are parameters of the model. \<open>to_datetime P col i\<close> is the
  timestamp \<^verbatim>\<open>pd.to_datetime(col, errors='coerce')\<close> gives at position \<open>i\<close>, or
  \<open>None\<close> for \<^verbatim>\<open>NaT\<close>; it may depend on the whole column, since pandas infers one
  format for it. \<open>to_numeric P s\<close> is the number \<^verbatim>\<open>pd.to_numeric\<close> reads from the
  string \<open>s\<close>, or \<open>None\<close> where \<^verbatim>\<open>errors='coerce'\<close> gives \<^verbatim>\<open>NaN\<close>.
\<close>

record pd =
  to_datetime :: "cell list \<Rightarrow> nat \<Rightarrow> int option"
  to_numeric :: "string \<Rightarrow> rat option"

definition coerce_datetime :: "pd \<Rightarrow> cell list \<Rightarrow> cell list" where
  "coerce_datetime P col =
     map (\<lambda>i. case to_datetime P col i of None \<Rightarrow> Null | Some t \<Rightarrow> Ts t) [0..<length col]"

text \<open>\<^verbatim>\<open>pd.to_numeric(col, errors='coerce').fillna(0)\<close>, then \<^verbatim>\<open>astype('float32')\<close>.\<close>

definition coerce_numeric :: "pd \<Rightarrow> cell list \<Rightarrow> cell list" where
  "coerce_numeric P col =
     map (\<lambda>c. case c of
                 Str s \<Rightarrow> (case to_numeric P s of None \<Rightarrow> Num 0 | Some q \<Rightarrow> Num q)
               | Num q \<Rightarrow> Num q
               | _ \<Rightarrow> Num 0) col"

text \<open>
  Lines 132 to 136, for one of the two date labels. On a repeated label \<^verbatim>\<open>df[c]\<close> is a
  frame, which \<^verbatim>\<open>pd.to_datetime\<close> refuses.
\<close>

definition convert_dates :: "pd \<Rightarrow> string \<Rightarrow> table \<Rightarrow> error + table" where
  "convert_dates P c df =
     (if c \<notin> set (columns df) then Inr df
      else if count_list (columns df) c \<noteq> 1 then Inl ValueError
      else Inr (set_col df c (coerce_datetime P (series df c))))"

definition numeric_cols :: "string list" where
  "numeric_cols = [''net_amount'', ''coupondiscount'', ''donationamount'', ''ADD_ON_STORE'']"

definition convert_numeric :: "pd \<Rightarrow> string \<Rightarrow> table \<Rightarrow> error + table" where
  "convert_numeric P col df =
     (if col \<notin> set (columns df) then Inr df
      else if count_list (columns df) col \<noteq> 1 then Inl TypeError
      else Inr (set_col df col (coerce_numeric P (series df col))))"

definition string_cols :: "string list" where
  "string_cols = [''name'', ''plan'', ''Exam_2'', ''order_type'', ''batch_eligibility'',
                  ''couponcode'', ''couponid'', ''leader_fin'', ''type_2'']"

text \<open>
  Lines 149 to 153, for one label. The conversion to the category dtype changes how the
  column is stored and is not represented. What the step can do to the outcome is
  raise: on a repeated label \<^verbatim>\<open>df[col].dtype\<close> does not exist, and on a frame without
  rows \<^verbatim>\<open>df[col].nunique() / len(df)\<close> divides by zero.
\<close>

definition optimize_string_col :: "string \<Rightarrow> table \<Rightarrow> error + table" where
  "optimize_string_col col df =
     (if col \<notin> set (columns df) then Inr df
      else if count_list (columns df) col \<noteq> 1 then Inl AttributeError
      else if length (rows df) = 0 then Inl ZeroDivisionError
      else Inr df)"

fun for_each_col :: "(string \<Rightarrow> table \<Rightarrow> error + table) \<Rightarrow> string list \<Rightarrow> table \<Rightarrow> error + table" where
  "for_each_col f [] df = Inr df"
| "for_each_col f (col # cols) df = and_then (f col df) (for_each_col f cols)"

text \<open>\<^verbatim>\<open>df.dropna(how='all')\<close>: a row is dropped when every cell of it is missing.\<close>

definition dropna_all :: "table \<Rightarrow> table" where
  "dropna_all df = df\<lparr>rows := filter (\<lambda>r. list_ex (\<lambda>c. c \<noteq> Null) r) (rows df)\<rparr>"

text \<open>\<^verbatim>\<open>df[df[c].notna()]\<close>.\<close>

definition keep_notna :: "string \<Rightarrow> table \<Rightarrow> table" where
  "keep_notna c df = df\<lparr>rows := filter (\<lambda>r. get_cell df c r \<noteq> Null) (rows df)\<rparr>"

definition normalize :: "pd \<Rightarrow> table list \<Rightarrow> error + table" where
  "normalize P all_dfs =
     and_then (pd_concat all_dfs) (\<lambda>df.
     and_then (convert_dates P ''converteddate'' df) (\<lambda>df.
     and_then (convert_dates P ''startdate'' df) (\<lambda>df.
     and_then (for_each_col (convert_numeric P) numeric_cols df) (\<lambda>df.
     and_then (for_each_col optimize_string_col string_cols df) (\<lambda>df.
       let df = dropna_all df
       in Inr (if ''converteddate'' \<in> set (columns df) then keep_notna ''converteddate'' df
               else df))))))"

section \<open>The cached loader (lines 59 to 199)\<close>

definition EMPTY_FRAME :: table where
  "EMPTY_FRAME =
     \<lparr>columns = [''_id'', ''batchid'', ''plan'', ''converteddate'', ''name'', ''net_amount'',
                  ''coupondiscount'', ''couponcode'', ''couponid'', ''donationamount'',
                  ''Exam_2'', ''order_type'', ''batch_eligibility'', ''startdate'',
                  ''ADD_ON_STORE'', ''leader_fin'', ''type_2''],
      rows = []\<rparr>"

text \<open>
  How the body of the \<^verbatim>\<open>try\<close> block ends: an exception reaches the outer handler;
  no worksheet gave a frame; the normalised table has no rows; or a table with rows was
  loaded.
\<close>

datatype outcome = Raised error | NoSheets | NoRows | Loaded table

definition try_load :: "pd \<Rightarrow> remote \<Rightarrow> outcome" where
  "try_load P rem =
     (case rem of
        Unavailable \<Rightarrow> Raised RemoteError
      | Spreadsheet ss \<Rightarrow>
          let all_dfs = load_all_worksheets ss
          in if all_dfs = [] then NoSheets
             else (case normalize P all_dfs of
                     Inl e \<Rightarrow> Raised e
                   | Inr df \<Rightarrow> if length (rows df) = 0 then NoRows else Loaded df))"

text \<open>
  The two module globals. \<open>CACHE_TIMESTAMP\<close> is a reading of \<^verbatim>\<open>time.time()\<close>, in
  seconds; it is a rational here.
\<close>

record cache =
  DATA_CACHE :: "table option"
  CACHE_TIMESTAMP :: "rat option"

definition CACHE_DURATION :: rat where
  "CACHE_DURATION = 300"

text \<open>
  The result of one call: the table returned, the globals after the call, and how many
  times the call went to the remote source (entered the \<^verbatim>\<open>try\<close> block).
\<close>

record load_result =
  returned :: table
  cache_after :: cache
  fetches :: nat

text \<open>
  Lines 70 to 199, the \<^verbatim>\<open>try\<close> block with its handler: the cache variables are
  assigned only where a table with rows was loaded (lines 176 and 177); every other
  ending returns the fixed empty frame.
\<close>

definition fetch_fresh :: "pd \<Rightarrow> remote \<Rightarrow> rat \<Rightarrow> cache \<Rightarrow> load_result" where
  "fetch_fresh P rem current_time st =
     (case try_load P rem of
        Loaded df \<Rightarrow>
          \<lparr>returned = df,
           cache_after = \<lparr>DATA_CACHE = Some df, CACHE_TIMESTAMP = Some current_time\<rparr>,
           fetches = 1\<rparr>
      | _ \<Rightarrow> \<lparr>returned = EMPTY_FRAME, cache_after = st, fetches = 1\<rparr>)"

text \<open>
  The whole function. \<open>rem\<close> is what the remote source would answer during this call,
  \<open>current_time\<close> the reading of \<^verbatim>\<open>time.time()\<close> at line 64, \<open>st\<close> the cache
  variables before the call. Lines 65 to 68 return a copy of the cached table; tables
  are values here, so the copy is the table.
\<close>

definition load_data_from_sheets :: "pd \<Rightarrow> remote \<Rightarrow> bool \<Rightarrow> rat \<Rightarrow> cache \<Rightarrow> load_result" where
  "load_data_from_sheets P rem force_refresh current_time st =
     (case DATA_CACHE st of
        Some df \<Rightarrow>
          (case CACHE_TIMESTAMP st of
             Some ts \<Rightarrow>
               if \<not> force_refresh \<and> current_time - ts < CACHE_DURATION
               then \<lparr>returned = df, cache_after = st, fetches = 0\<rparr>
               else fetch_fresh P rem current_time st
           | None \<Rightarrow> fetch_fresh P rem current_time st)
      | None \<Rightarrow> fetch_fresh P rem current_time st)"

text \<open>The condition under which lines 65 to 68 answer from the cache.\<close>

definition cache_is_fresh :: "bool \<Rightarrow> rat \<Rightarrow> cache \<Rightarrow> bool" where
  "cache_is_fresh force_refresh current_time st =
     (\<not> force_refresh \<and> DATA_CACHE st \<noteq> None \<and>
      (case CACHE_TIMESTAMP st of
         None \<Rightarrow> False
       | Some ts \<Rightarrow> current_time - ts < CACHE_DURATION))"

section \<open>The filters of update_dashboard (lines 690 to 707)\<close>

text \<open>
  What the callback receives from the filter widgets. The two bounds of the date picker
  are compared with the timestamps of the table and are timestamps here; a cleared
  date picker is not modelled. A filter list without elements stands for \<^verbatim>\<open>None\<close>
  as well as for \<^verbatim>\<open>[]\<close>: the code treats both alike.
\<close>

record selection =
  start_date :: int
  end_date :: int
  batch_filter :: "string list"
  exam_filter :: "string list"
  plan_filter :: "string list"

text \<open>\<^verbatim>\<open>df[mask]\<close> for a mask computed row by row.\<close>

definition select_rows :: "(cell list \<Rightarrow> bool) \<Rightarrow> table \<Rightarrow> table" where
  "select_rows p T = T\<lparr>rows := filter p (rows T)\<rparr>"

text \<open>
  \<^verbatim>\<open>(col >= start_date) & (col <= end_date)\<close> on one cell of a timestamp column: a
  missing timestamp compares false.
\<close>

definition date_between :: "int \<Rightarrow> int \<Rightarrow> cell \<Rightarrow> bool" where
  "date_between lo hi c = (case c of Ts t \<Rightarrow> lo \<le> t \<and> t \<le> hi | _ \<Rightarrow> False)"

definition isin :: "string list \<Rightarrow> cell \<Rightarrow> bool" where
  "isin vals c = (case c of Str s \<Rightarrow> s \<in> set vals | _ \<Rightarrow> False)"

definition filter_dates :: "int \<Rightarrow> int \<Rightarrow> table \<Rightarrow> table" where
  "filter_dates lo hi filtered_df =
     (if ''converteddate'' \<in> set (columns filtered_df)
      then select_rows (\<lambda>r. date_between lo hi (get_cell filtered_df ''converteddate'' r)) filtered_df
      else filtered_df)"

definition filter_isin :: "string \<Rightarrow> string list \<Rightarrow> table \<Rightarrow> table" where
  "filter_isin col vals filtered_df =
     (if vals \<noteq> [] \<and> col \<in> set (columns filtered_df)
      then select_rows (\<lambda>r. isin vals (get_cell filtered_df col r)) filtered_df
      else filtered_df)"

definition apply_filters :: "selection \<Rightarrow> table \<Rightarrow> table" where
  "apply_filters sel df =
     (let filtered_df = filter_dates (start_date sel) (end_date sel) df;
          filtered_df = filter_isin ''name'' (batch_filter sel) filtered_df;
          filtered_df = filter_isin ''Exam_2'' (exam_filter sel) filtered_df
      in filter_isin ''plan'' (plan_filter sel) filtered_df)"

text \<open>
  Modelled from the spec: the combination of two selections, which the repository does
  not define. The specification's words are "intersected date ranges, intersected
  non-empty dimension sets, empty meaning unrestricted".
\<close>

definition spec_combine_dim :: "string list \<Rightarrow> string list \<Rightarrow> string list" where
  "spec_combine_dim a b = (if a = [] then b else if b = [] then a else filter (\<lambda>x. x \<in> set b) a)"

definition spec_combine :: "selection \<Rightarrow> selection \<Rightarrow> selection" where
  "spec_combine s1 s2 =
     \<lparr>start_date = max (start_date s1) (start_date s2),
      end_date = min (end_date s1) (end_date s2),
      batch_filter = spec_combine_dim (batch_filter s1) (batch_filter s2),
      exam_filter = spec_combine_dim (exam_filter s1) (exam_filter s2),
      plan_filter = spec_combine_dim (plan_filter s1) (plan_filter s2)\<rparr>"

section \<open>The aggregates of update_dashboard\<close>

text \<open>
  Line 711: the rows of the last seven days, counted back from the end of the selected
  range. \<^verbatim>\<open>pd.Timedelta(days=7)\<close> is seven times 24 hours.
\<close>

definition last_7_days :: "selection \<Rightarrow> table \<Rightarrow> table" where
  "last_7_days sel filtered_df =
     (if ''converteddate'' \<in> set (columns filtered_df)
      then select_rows
             (\<lambda>r. case get_cell filtered_df ''converteddate'' r of
                     Ts t \<Rightarrow> t \<ge> end_date sel - 7 * ns_per_day
                   | _ \<Rightarrow> False) filtered_df
      else filtered_df)"

text \<open>
  \<^verbatim>\<open>groupby(col)\<close>: one group for every value of the column that is not missing, the
  keys in ascending order. Unused categories of a categorical column are not
  represented. The key columns of this program hold timestamps (\<open>converteddate\<close>) or
  strings (\<open>name\<close>, \<open>Exam_2\<close>).
\<close>

definition ts_keys :: "table \<Rightarrow> string \<Rightarrow> int list" where
  "ts_keys T col = sort (remdups (concat (map (\<lambda>c. case c of Ts t \<Rightarrow> [t] | _ \<Rightarrow> []) (series T col))))"

definition str_keys :: "table \<Rightarrow> string \<Rightarrow> string list" where
  "str_keys T col = sort (remdups (concat (map (\<lambda>c. case c of Str s \<Rightarrow> [s] | _ \<Rightarrow> []) (series T col))))"

definition group_rows :: "table \<Rightarrow> string \<Rightarrow> cell \<Rightarrow> cell list list" where
  "group_rows T col k = filter (\<lambda>r. get_cell T col r = k) (rows T)"

text \<open>The sum of a numeric column over some rows; \<^verbatim>\<open>sum()\<close> skips missing values.\<close>

definition amount :: "cell \<Rightarrow> rat" where
  "amount c = (case c of Num q \<Rightarrow> q | _ \<Rightarrow> 0)"

definition sum_col :: "table \<Rightarrow> string \<Rightarrow> cell list list \<Rightarrow> rat" where
  "sum_col T col rs = sum_list (map (\<lambda>r. amount (get_cell T col r)) rs)"

text \<open>The aggregation \<^verbatim>\<open>'first'\<close>: the first value of the group that is not missing.\<close>

definition first_notna :: "cell list \<Rightarrow> cell" where
  "first_notna cs = (case filter (\<lambda>c. c \<noteq> Null) cs of [] \<Rightarrow> Null | c # _ \<Rightarrow> c)"



text \<open>
  Chart 2 (lines 769 to 774): \<^verbatim>\<open>groupby('converteddate').size()\<close> on the rows of the
  last seven days. \<open>None\<close> stands for the figure "No data available".
\<close>

definition last_7_trend :: "selection \<Rightarrow> table \<Rightarrow> (int \<times> nat) list option" where
  "last_7_trend sel filtered_df =
     (let last_7_days_df = last_7_days sel filtered_df
      in if ''converteddate'' \<in> set (columns last_7_days_df)
         then Some (map (\<lambda>t. (t, length (group_rows last_7_days_df ''converteddate'' (Ts t))))
                        (ts_keys last_7_days_df ''converteddate''))
         else None)"





section \<open>The batch summary (lines 903 to 1011 and 1129 to 1205)\<close>

text \<open>
  One row of the summary per batch name. A field is \<open>None\<close> when the table lacks the
  column it is computed from. \<open>order_types\<close> holds the two counts that the callback
  prints as "n Primary, m Upgrade" and that the export writes into two columns. The
  revenue is the number before it is printed with two decimals.
\<close>

record batch_row =
  batch_name :: string
  exam_category :: "cell option"
  revenue_cr :: "rat option"
  order_types :: "(nat \<times> nat) option"
  leader :: "cell option"
  total_enrollments :: nat

definition batch_row_of :: "table \<Rightarrow> string \<Rightarrow> batch_row" where
  "batch_row_of filtered_df k =
     (let g = group_rows filtered_df ''name'' (Str k);
          has = (\<lambda>col. col \<in> set (columns filtered_df))
      in \<lparr>batch_name = k,
          exam_category =
            (if has ''Exam_2'' then Some (first_notna (map (get_cell filtered_df ''Exam_2'') g))
             else None),
          revenue_cr =
            (if has ''net_amount'' then Some (sum_col filtered_df ''net_amount'' g / 10000000)
             else None),
          order_types =
            (if has ''order_type''
             then Some (length (filter (\<lambda>r. get_cell filtered_df ''order_type'' r = Str ''PRIMARY'') g),
                        length (filter (\<lambda>r. get_cell filtered_df ''order_type'' r = Str ''UPGRADE'') g))
             else None),
          leader =
            (if has ''leader_fin'' then Some (first_notna (map (get_cell filtered_df ''leader_fin'') g))
             else None),
          total_enrollments = length g\<rparr>)"

text \<open>
  \<^verbatim>\<open>groupby('name')\<close> with its aggregations, merged with the group sizes and sorted by
  \<open>Total Enrollments\<close>, the largest first (batches of equal size in the order of
  their names; pandas does not specify their order).
\<close>

definition batch_rows :: "table \<Rightarrow> batch_row list" where
  "batch_rows filtered_df =
     sort_key (\<lambda>row. - int (total_enrollments row))
       (map (batch_row_of filtered_df) (str_keys filtered_df ''name''))"

datatype summary_col =
  BatchName | TotalEnrollments | ExamCategory | TotalRevenueCr | OrderTypes
  | PrimaryOrders | UpgradeOrders | Leader

datatype footer_cell = FooterText string | FooterCount nat | FooterRevenue rat

text \<open>
  The table of the callback: its columns in the order of \<^verbatim>\<open>table_df.columns\<close>, its
  rows, the cells of the footer row, and the two numbers of the caption under the
  table, "Showing n batches with total of m enrollments".
\<close>

record data_table =
  table_columns :: "summary_col list"
  table_rows :: "batch_row list"
  footer_cells :: "footer_cell list"
  caption_batches :: nat
  caption_enrollments :: nat

text \<open>
  Lines 903 to 1011. Without a \<open>name\<close> column the callback shows "No data available"
  (\<open>None\<close>). The aggregation always asks for \<open>Exam_2\<close>, so a table with \<open>name\<close> and
  without \<open>Exam_2\<close> raises \<^verbatim>\<open>KeyError\<close>.
\<close>

definition dashboard_table :: "table \<Rightarrow> error + data_table option" where
  "dashboard_table filtered_df =
     (if ''name'' \<notin> set (columns filtered_df) then Inr None
      else if ''Exam_2'' \<notin> set (columns filtered_df) then Inl KeyError
      else
        let table_df = batch_rows filtered_df;
            cols = [BatchName, ExamCategory]
                   @ (if ''net_amount'' \<in> set (columns filtered_df) then [TotalRevenueCr] else [])
                   @ (if ''order_type'' \<in> set (columns filtered_df) then [OrderTypes] else [])
                   @ (if ''leader_fin'' \<in> set (columns filtered_df) then [Leader] else [])
                   @ [TotalEnrollments];
            total_enrollments = sum_list (map total_enrollments table_df);
            total_revenue_sum =
              (if ''net_amount'' \<in> set (columns filtered_df)
               then sum_col filtered_df ''net_amount'' (rows filtered_df) / 10000000 else 0)
        in Inr (Some
             \<lparr>table_columns = cols,
              table_rows = table_df,
              footer_cells =
                map (\<lambda>col. case col of
                        BatchName \<Rightarrow> FooterText ''TOTAL''
                      | TotalEnrollments \<Rightarrow> FooterCount total_enrollments
                      | TotalRevenueCr \<Rightarrow> FooterRevenue total_revenue_sum
                      | _ \<Rightarrow> FooterText []) cols,
              caption_batches = length table_df,
              caption_enrollments = length (rows filtered_df)\<rparr>))"

text \<open>
  \<open>export_table\<close>, lines 1129 to 1205, on the frame read back from the stored JSON:
  the columns of the exported sheet, its rows and the total row appended to them.
  \<open>None\<close> stands for the export of the unaggregated data, made when there is no
  \<open>name\<close> column. An aggregation without any column is refused by pandas.
\<close>

definition export_table ::
  "table \<Rightarrow> error + (summary_col list \<times> batch_row list \<times> footer_cell list) option" where
  "export_table filtered_df =
     (if ''name'' \<notin> set (columns filtered_df) then Inr None
      else if ''Exam_2'' \<notin> set (columns filtered_df) \<and> ''net_amount'' \<notin> set (columns filtered_df)
              \<and> ''leader_fin'' \<notin> set (columns filtered_df) then Inl ValueError
      else
        let export_df = batch_rows filtered_df;
            final_cols = [BatchName, TotalEnrollments]
                   @ (if ''Exam_2'' \<in> set (columns filtered_df) then [ExamCategory] else [])
                   @ (if ''net_amount'' \<in> set (columns filtered_df) then [TotalRevenueCr] else [])
                   @ (if ''order_type'' \<in> set (columns filtered_df)
                      then [PrimaryOrders, UpgradeOrders] else [])
                   @ (if ''leader_fin'' \<in> set (columns filtered_df) then [Leader] else []);
            total_row =
              map (\<lambda>col. case col of
                      BatchName \<Rightarrow> FooterText ''TOTAL''
                    | TotalEnrollments \<Rightarrow> FooterCount (sum_list (map total_enrollments export_df))
                    | TotalRevenueCr \<Rightarrow>
                        FooterRevenue (sum_list (map (\<lambda>row. case revenue_cr row of
                                                           Some v \<Rightarrow> v | None \<Rightarrow> 0) export_df))
                    | PrimaryOrders \<Rightarrow>
                        FooterCount (sum_list (map (\<lambda>row. case order_types row of
                                                         Some (p, u) \<Rightarrow> p | None \<Rightarrow> 0) export_df))
                    | UpgradeOrders \<Rightarrow>
                        FooterCount (sum_list (map (\<lambda>row. case order_types row of
                                                         Some (p, u) \<Rightarrow> u | None \<Rightarrow> 0) export_df))
                    | _ \<Rightarrow> FooterText []) final_cols
        in Inr (Some (final_cols, export_df, total_row)))"

section \<open>Auxiliary notions for the proofs\<close>

text \<open>
  The conjunction of the conditions that \<open>apply_filters\<close> imposes on one row of a table
  with the column labels of \<open>T\<close>. It is shown below to describe \<open>apply_filters\<close>.
\<close>

definition row_passes :: "selection \<Rightarrow> table \<Rightarrow> cell list \<Rightarrow> bool" where
  "row_passes sel T r =
     ((''converteddate'' \<in> set (columns T) \<longrightarrow>
         date_between (start_date sel) (end_date sel) (get_cell T ''converteddate'' r)) \<and>
      (batch_filter sel \<noteq> [] \<and> ''name'' \<in> set (columns T) \<longrightarrow>
         isin (batch_filter sel) (get_cell T ''name'' r)) \<and>
      (exam_filter sel \<noteq> [] \<and> ''Exam_2'' \<in> set (columns T) \<longrightarrow>
         isin (exam_filter sel) (get_cell T ''Exam_2'' r)) \<and>
      (plan_filter sel \<noteq> [] \<and> ''plan'' \<in> set (columns T) \<longrightarrow>
         isin (plan_filter sel) (get_cell T ''plan'' r)))"

text \<open>
  Two filter lists of one dimension can be intersected without losing the restriction:
  one of them is empty, or they share an element.
\<close>

definition dims_meet :: "string list \<Rightarrow> string list \<Rightarrow> bool" where
  "dims_meet a b = (a = [] \<or> b = [] \<or> list_ex (\<lambda>x. x \<in> set b) a)"

text \<open>
  A table is well formed when every row has one cell per column. \<open>col_all p c T\<close>: the
  cell under the label \<open>c\<close> satisfies \<open>p\<close> in every row of \<open>T\<close>.
\<close>

definition wf_table :: "table \<Rightarrow> bool" where
  "wf_table T = list_all (\<lambda>r. length r = length (columns T)) (rows T)"

definition is_ts :: "cell \<Rightarrow> bool" where
  "is_ts c = (case c of Ts t \<Rightarrow> True | _ \<Rightarrow> False)"

definition is_num :: "cell \<Rightarrow> bool" where
  "is_num c = (case c of Num q \<Rightarrow> True | _ \<Rightarrow> False)"

definition col_all :: "(cell \<Rightarrow> bool) \<Rightarrow> string \<Rightarrow> table \<Rightarrow> bool" where
  "col_all p c T = list_all (\<lambda>r. p (get_cell T c r)) (rows T)"

text \<open>
  The invariant of normalised tables: where the table has the column \<open>converteddate\<close>,
  every row holds a timestamp in it; where it has one of the four numeric columns,
  every row holds a number in it.
\<close>

definition normalized :: "table \<Rightarrow> bool" where
  "normalized T =
     ((''converteddate'' \<in> set (columns T) \<longrightarrow> col_all is_ts ''converteddate'' T) \<and>
      list_all (\<lambda>col. col \<in> set (columns T) \<longrightarrow> col_all is_num col T) numeric_cols)"

text \<open>
  The characters of which the header keywords are made, and the rows that \<^verbatim>\<open>repr\<close>
  prints without an escape for a control or non-printable character.
\<close>

definition keyword_chars :: "char list" where
  "keyword_chars = ''abcdehimnortv_''"

definition printable_row :: "string list \<Rightarrow> bool" where
  "printable_row row = list_all (list_all py_isprintable) row"

section \<open>Concrete inputs\<close>

text \<open>
  A parser pair that reads four dates and two amounts, a spreadsheet of two worksheets
  (the second with a line of metadata above its header, and a date that does not
  parse), and the table the loader makes of it.
\<close>

definition example_pd :: pd where
  "example_pd =
     \<lparr>to_datetime = (\<lambda>col i. case col ! i of
          Str s \<Rightarrow> (if s = ''2024-01-05'' then Some (19727 * ns_per_day)
                    else if s = ''2024-01-06'' then Some (19728 * ns_per_day)
                    else if s = ''2024-01-05 10:00:00''
                      then Some (19727 * ns_per_day + 36000000000000)
                    else if s = ''2024-01-05 11:00:00''
                      then Some (19727 * ns_per_day + 39600000000000)
                    else None)
        | _ \<Rightarrow> None),
      to_numeric = (\<lambda>s. if s = ''100'' then Some 100 else if s = ''200'' then Some 200 else None)\<rparr>"

definition example_sheets :: spreadsheet where
  "example_sheets =
     [(''Foundation Data'',
         [[''_id'', ''name'', ''converteddate'', ''net_amount''],
          [''1'', ''A'', ''2024-01-05'', ''100''],
          [''2'', ''B'', ''2024-01-06'', ''200'']]),
      (''CUET UG Data'',
         [[''Exported report''],
          [''_id'', ''name'', ''converteddate'', ''net_amount''],
          [''3'', ''A'', ''not a date'', ''100'']])]"

definition example_table :: table where
  "example_table =
     \<lparr>columns = [''_id'', ''name'', ''converteddate'', ''net_amount''],
      rows = [[Str ''1'', Str ''A'', Ts (19727 * ns_per_day), Num 100],
              [Str ''2'', Str ''B'', Ts (19728 * ns_per_day), Num 200]]\<rparr>"

definition two_batches :: table where
  "two_batches =
     \<lparr>columns = [''name'', ''Exam_2''], rows = [[Str ''A'', Str ''X''], [Str ''B'', Str ''X'']]\<rparr>"

definition only_batches :: "string list \<Rightarrow> selection" where
  "only_batches bs =
     \<lparr>start_date = 19700 * ns_per_day, end_date = 19730 * ns_per_day,
      batch_filter = bs, exam_filter = [], plan_filter = []\<rparr>"

text \<open>
  Two worksheets of which only the first has a \<open>name\<close> column, and the table the loader
  makes of them: the row of the second worksheet has no batch name.
\<close>

definition mixed_sheets :: spreadsheet where
  "mixed_sheets =
     [(''Foundation Data'',
         [[''_id'', ''name'', ''Exam_2'', ''converteddate''],
          [''1'', ''A'', ''X'', ''2024-01-05'']]),
      (''CUET UG Data'',
         [[''_id'', ''Exam_2'', ''converteddate''],
          [''2'', ''Y'', ''2024-01-06'']])]"

definition mixed_table :: table where
  "mixed_table =
     \<lparr>columns = [''_id'', ''name'', ''Exam_2'', ''converteddate''],
      rows = [[Str ''1'', Str ''A'', Str ''X'', Ts (19727 * ns_per_day)],
              [Str ''2'', Null, Str ''Y'', Ts (19728 * ns_per_day)]]\<rparr>"

text \<open>A worksheet whose dates carry a time of day: two enrollments on 5 January 2024.\<close>

definition timed_sheets :: spreadsheet where
  "timed_sheets =
     [(''Foundation Data'',
         [[''_id'', ''name'', ''Exam_2'', ''converteddate''],
          [''1'', ''A'', ''X'', ''2024-01-05 10:00:00''],
          [''2'', ''A'', ''X'', ''2024-01-05 11:00:00'']])]"

definition timed_table :: table where
  "timed_table =
     \<lparr>columns = [''_id'', ''name'', ''Exam_2'', ''converteddate''],
      rows = [[Str ''1'', Str ''A'', Str ''X'', Ts (19727 * ns_per_day + 36000000000000)],
              [Str ''2'', Str ''A'', Str ''X'', Ts (19727 * ns_per_day + 39600000000000)]]\<rparr>"


text \<open>A worksheet without a date column and without amounts, and its table.\<close>

definition undated_sheets :: spreadsheet where
  "undated_sheets = [(''Foundation Data'', [[''_id'', ''name''], [''1'', ''A'']])]"

definition undated_table :: table where
  "undated_table = \<lparr>columns = [''_id'', ''name''], rows = [[Str ''1'', Str ''A'']]\<rparr>"

text \<open>A worksheet whose only record has a date that does not parse.\<close>

definition unparsed_sheets :: spreadsheet where
  "unparsed_sheets =
     [(''Foundation Data'',
         [[''_id'', ''name'', ''converteddate''],
          [''3'', ''A'', ''not a date'']])]"

text \<open>
  A worksheet with one line of metadata above its header; and a worksheet whose line of
  metadata holds a line feed followed by the letters "ame".
\<close>

definition report_sheet :: "string list list" where
  "report_sheet =
     [[''Exported report'', [], []],
      [''_id'', ''Name'', ''converteddate''],
      [''3'', ''A'', ''2024-01-05'']]"

definition escaped_sheet :: "string list list" where
  "escaped_sheet =
     [[''Enrollment report'' @ [CHR 0x0A] @ ''amended 2024-01-07'', [], []],
      [''_id'', ''name'', ''converteddate''],
      [''1'', ''A'', ''2024-01-05'']]"

section \<open>Properties of the cached loader\<close>

lemma example_try_load: "try_load example_pd (Spreadsheet example_sheets) = Loaded example_table"
  by code_simp

lemma try_load_Unavailable: "try_load P Unavailable = Raised RemoteError"
  by (simp add: try_load_def)

lemma try_load_Loaded_rows: "try_load P rem = Loaded df \<Longrightarrow> rows df \<noteq> []"
  by (auto simp: try_load_def Let_def split: remote.splits if_splits sum.splits)

lemma load_fresh:
  "cache_is_fresh force_refresh current_time st \<Longrightarrow>
   \<exists>df. DATA_CACHE st = Some df \<and>
     load_data_from_sheets P rem force_refresh current_time st =
       \<lparr>returned = df, cache_after = st, fetches = 0\<rparr>"
  by (auto simp: load_data_from_sheets_def cache_is_fresh_def split: option.splits)

lemma load_not_fresh_Loaded:
  "\<not> cache_is_fresh force_refresh current_time st \<Longrightarrow> try_load P rem = Loaded df \<Longrightarrow>
   load_data_from_sheets P rem force_refresh current_time st =
     \<lparr>returned = df,
      cache_after = \<lparr>DATA_CACHE = Some df, CACHE_TIMESTAMP = Some current_time\<rparr>,
      fetches = 1\<rparr>"
  by (auto simp: load_data_from_sheets_def fetch_fresh_def cache_is_fresh_def
      split: option.splits)

lemma load_not_fresh_failed:
  "\<not> cache_is_fresh force_refresh current_time st \<Longrightarrow> \<forall>df. try_load P rem \<noteq> Loaded df \<Longrightarrow>
   load_data_from_sheets P rem force_refresh current_time st =
     \<lparr>returned = EMPTY_FRAME, cache_after = st, fetches = 1\<rparr>"
  by (cases "try_load P rem")
     (auto simp: load_data_from_sheets_def fetch_fresh_def cache_is_fresh_def
      split: option.splits)

text \<open>
  C2, as amended. In a warm cache state (a cached table \<open>df\<close> and a timestamp \<open>ts\<close>), a
  call with \<^verbatim>\<open>force_refresh=False\<close> less than \<open>CACHE_DURATION = 300\<close> seconds after
  \<open>ts\<close> returns the cached table, leaves the cache as it is and does not go to the remote
  source. When a call that is not served from the cache loads a table at time \<open>t1\<close>, and
  a second call with \<^verbatim>\<open>force_refresh=False\<close> follows at a time \<open>t2\<close> less than 300
  seconds later, the two calls go to the remote source exactly once, whatever the
  source would have answered the second time, and return the same table. In general
  the number of fetches of two such calls, the second not before the first, depends on
  what the first call found: none or one when the first call is served from the cache
  (one when the cached table expires between the calls), one when the first call loads
  a table with rows, and two when the attempt of the first call raises or yields no
  rows, since nothing is cached then.
\<close>

theorem cache_hit_within_window:
  "(DATA_CACHE st = Some df \<and> CACHE_TIMESTAMP st = Some ts \<and> current_time - ts < 300 \<longrightarrow>
      CACHE_DURATION = 300 \<and>
      load_data_from_sheets P rem False current_time st =
        \<lparr>returned = df, cache_after = st, fetches = 0\<rparr>) \<and>
   (\<not> cache_is_fresh False t1 st \<and> try_load P rem1 = Loaded df1 \<and> t2 - t1 < 300 \<longrightarrow>
      (let r1 = load_data_from_sheets P rem1 False t1 st;
           r2 = load_data_from_sheets P rem2 False t2 (cache_after r1)
       in fetches r1 + fetches r2 = 1 \<and> returned r1 = df1 \<and> returned r2 = df1 \<and>
          cache_after r2 = cache_after r1)) \<and>
   (t1 \<le> t2 \<and> t2 - t1 < 300 \<longrightarrow>
      (let r1 = load_data_from_sheets P rem1 False t1 st;
           r2 = load_data_from_sheets P rem2 False t2 (cache_after r1)
       in fetches r1 + fetches r2 =
            (if cache_is_fresh False t1 st
             then (if cache_is_fresh False t2 st then 0 else 1)
             else (case try_load P rem1 of Loaded df' \<Rightarrow> 1 | _ \<Rightarrow> 2))))"
proof (intro conjI impI)
  assume warm: "DATA_CACHE st = Some df \<and> CACHE_TIMESTAMP st = Some ts \<and> current_time - ts < 300"
  show "CACHE_DURATION = 300"
    by (simp add: CACHE_DURATION_def)
  from warm have "cache_is_fresh False current_time st"
    by (simp add: cache_is_fresh_def CACHE_DURATION_def)
  from load_fresh [OF this, of P rem] warm
  show "load_data_from_sheets P rem False current_time st =
          \<lparr>returned = df, cache_after = st, fetches = 0\<rparr>"
    by auto
next
  assume h: "\<not> cache_is_fresh False t1 st \<and> try_load P rem1 = Loaded df1 \<and> t2 - t1 < 300"
  define r1 where "r1 = load_data_from_sheets P rem1 False t1 st"
  have r1: "r1 = \<lparr>returned = df1,
                  cache_after = \<lparr>DATA_CACHE = Some df1, CACHE_TIMESTAMP = Some t1\<rparr>,
                  fetches = 1\<rparr>"
    unfolding r1_def using h by (simp add: load_not_fresh_Loaded)
  have "cache_is_fresh False t2 (cache_after r1)"
    using h by (simp add: r1 cache_is_fresh_def CACHE_DURATION_def)
  from load_fresh [OF this, of P rem2]
  have r2: "load_data_from_sheets P rem2 False t2 (cache_after r1) =
              \<lparr>returned = df1, cache_after = cache_after r1, fetches = 0\<rparr>"
    by (simp add: r1)
  show "let r1 = load_data_from_sheets P rem1 False t1 st;
            r2 = load_data_from_sheets P rem2 False t2 (cache_after r1)
        in fetches r1 + fetches r2 = 1 \<and> returned r1 = df1 \<and> returned r2 = df1 \<and>
           cache_after r2 = cache_after r1"
    using r2 unfolding r1_def [symmetric] Let_def by (simp add: r1)
next
  assume t: "t1 \<le> t2 \<and> t2 - t1 < 300"
  define r1 where "r1 = load_data_from_sheets P rem1 False t1 st"
  define r2 where "r2 = load_data_from_sheets P rem2 False t2 (cache_after r1)"
  have "fetches r1 + fetches r2 =
          (if cache_is_fresh False t1 st
           then (if cache_is_fresh False t2 st then 0 else 1)
           else (case try_load P rem1 of Loaded df' \<Rightarrow> 1 | _ \<Rightarrow> 2))"
  proof (cases "cache_is_fresh False t1 st")
    case True
    from load_fresh [OF this, of P rem1]
    have a: "cache_after r1 = st" "fetches r1 = 0"
      by (auto simp: r1_def)
    have "fetches r2 = (if cache_is_fresh False t2 st then 0 else 1)"
    proof (cases "cache_is_fresh False t2 st")
      case True
      from load_fresh [OF this, of P rem2] show ?thesis
        by (auto simp: r2_def a True)
    next
      case False
      then show ?thesis
        by (cases "try_load P rem2")
           (auto simp: r2_def a load_data_from_sheets_def fetch_fresh_def cache_is_fresh_def
              split: option.splits)
    qed
    with True a show ?thesis by simp
  next
    case stale: False
    show ?thesis
    proof (cases "\<exists>df'. try_load P rem1 = Loaded df'")
      case True
      then obtain df' where l: "try_load P rem1 = Loaded df'" ..
      from load_not_fresh_Loaded [OF stale l]
      have a: "cache_after r1 = \<lparr>DATA_CACHE = Some df', CACHE_TIMESTAMP = Some t1\<rparr>"
        "fetches r1 = 1"
        by (simp_all add: r1_def)
      have "cache_is_fresh False t2 (cache_after r1)"
        using t by (simp add: a cache_is_fresh_def CACHE_DURATION_def)
      from load_fresh [OF this, of P rem2] have "fetches r2 = 0"
        by (auto simp: r2_def)
      with stale l a show ?thesis by simp
    next
      case no: False
      then have n: "\<forall>df'. try_load P rem1 \<noteq> Loaded df'" by simp
      from load_not_fresh_failed [OF stale n]
      have a: "cache_after r1 = st" "fetches r1 = 1"
        by (simp_all add: r1_def)
      have stale2: "\<not> cache_is_fresh False t2 st"
        using stale t by (auto simp: cache_is_fresh_def split: option.splits)
      then have "fetches r2 = 1"
        by (cases "try_load P rem2")
           (auto simp: r2_def a load_data_from_sheets_def fetch_fresh_def cache_is_fresh_def
              split: option.splits)
      moreover from no have "(case try_load P rem1 of Loaded df' \<Rightarrow> 1 | _ \<Rightarrow> 2) = (2::nat)"
        by (cases "try_load P rem1") auto
      ultimately show ?thesis
        using stale a by simp
    qed
  qed
  then show "let r1 = load_data_from_sheets P rem1 False t1 st;
            r2 = load_data_from_sheets P rem2 False t2 (cache_after r1)
        in fetches r1 + fetches r2 =
            (if cache_is_fresh False t1 st
             then (if cache_is_fresh False t2 st then 0 else 1)
             else (case try_load P rem1 of Loaded df' \<Rightarrow> 1 | _ \<Rightarrow> 2))"
    unfolding r1_def r2_def Let_def .
qed

lemma two_calls_examples:
  "try_load example_pd (Spreadsheet unparsed_sheets) = NoRows"
  "\<not> cache_is_fresh False 1000 \<lparr>DATA_CACHE = None, CACHE_TIMESTAMP = None\<rparr>"
  "cache_is_fresh False 1000 \<lparr>DATA_CACHE = Some example_table, CACHE_TIMESTAMP = Some 900\<rparr>"
  "cache_is_fresh False 1001 \<lparr>DATA_CACHE = Some example_table, CACHE_TIMESTAMP = Some 900\<rparr>"
  "(1000::rat) \<le> 1001 \<and> (1001::rat) - 1000 < 300"
  by code_simp+

theorem cache_hit_within_window_witness:
  "load_data_from_sheets example_pd Unavailable False 299
       \<lparr>DATA_CACHE = Some example_table, CACHE_TIMESTAMP = Some 0\<rparr> =
     \<lparr>returned = example_table,
      cache_after = \<lparr>DATA_CACHE = Some example_table, CACHE_TIMESTAMP = Some 0\<rparr>,
      fetches = 0\<rparr> \<and>
   (let r1 = load_data_from_sheets example_pd (Spreadsheet example_sheets) False 1000
               \<lparr>DATA_CACHE = None, CACHE_TIMESTAMP = None\<rparr>;
        r2 = load_data_from_sheets example_pd Unavailable False 1299 (cache_after r1)
    in fetches r1 + fetches r2 = 1 \<and> returned r1 = example_table \<and>
       returned r2 = example_table \<and> cache_after r2 = cache_after r1) \<and>
   (let r1 = load_data_from_sheets example_pd (Spreadsheet unparsed_sheets) False 1000
               \<lparr>DATA_CACHE = None, CACHE_TIMESTAMP = None\<rparr>;
        r2 = load_data_from_sheets example_pd (Spreadsheet unparsed_sheets) False 1001
               (cache_after r1)
    in fetches r1 + fetches r2 = 2) \<and>
   (let r1 = load_data_from_sheets example_pd Unavailable False 1000
               \<lparr>DATA_CACHE = Some example_table, CACHE_TIMESTAMP = Some 900\<rparr>;
        r2 = load_data_from_sheets example_pd Unavailable False 1001 (cache_after r1)
    in fetches r1 + fetches r2 = 0)"
  using cache_hit_within_window
    [of "\<lparr>DATA_CACHE = Some example_table, CACHE_TIMESTAMP = Some 0\<rparr>" example_table 0 299
        example_pd Unavailable 1000 "Spreadsheet example_sheets" example_table 1299 Unavailable]
    cache_hit_within_window
    [of "\<lparr>DATA_CACHE = None, CACHE_TIMESTAMP = None\<rparr>" example_table 0 299
        example_pd Unavailable 1000 "Spreadsheet example_sheets" example_table 1299 Unavailable]
    cache_hit_within_window
    [of "\<lparr>DATA_CACHE = None, CACHE_TIMESTAMP = None\<rparr>" example_table 0 299
        example_pd Unavailable 1000 "Spreadsheet unparsed_sheets" example_table 1001
        "Spreadsheet unparsed_sheets"]
    cache_hit_within_window
    [of "\<lparr>DATA_CACHE = Some example_table, CACHE_TIMESTAMP = Some 900\<rparr>" example_table 0 299
        example_pd Unavailable 1000 Unavailable example_table 1001 Unavailable]
  by (simp add: example_try_load two_calls_examples cache_is_fresh_def)

text \<open>
  The claim as it was stated fails: two consecutive calls with \<^verbatim>\<open>force_refresh=False\<close>
  one second apart do not always make exactly one fetch. Starting with an empty cache,
  they make two when the remote source is unavailable at both, and two when the
  worksheet's only record has a date that does not parse, so that the loaded frame
  has no rows and is not cached; starting with a table cached 100 seconds earlier,
  they make none.
\<close>

theorem two_calls_fetch_count_counterexample:
  "try_load example_pd Unavailable = Raised RemoteError \<and>
   (let r1 = load_data_from_sheets example_pd Unavailable False 1000
               \<lparr>DATA_CACHE = None, CACHE_TIMESTAMP = None\<rparr>;
        r2 = load_data_from_sheets example_pd Unavailable False 1001 (cache_after r1)
    in fetches r1 + fetches r2 = 2 \<and> returned r2 = EMPTY_FRAME) \<and>
   try_load example_pd (Spreadsheet unparsed_sheets) = NoRows \<and>
   (let r1 = load_data_from_sheets example_pd (Spreadsheet unparsed_sheets) False 1000
               \<lparr>DATA_CACHE = None, CACHE_TIMESTAMP = None\<rparr>;
        r2 = load_data_from_sheets example_pd (Spreadsheet unparsed_sheets) False 1001
               (cache_after r1)
    in fetches r1 + fetches r2 = 2 \<and> returned r1 = EMPTY_FRAME \<and>
       cache_after r1 = \<lparr>DATA_CACHE = None, CACHE_TIMESTAMP = None\<rparr>) \<and>
   (let r1 = load_data_from_sheets example_pd (Spreadsheet example_sheets) False 1000
               \<lparr>DATA_CACHE = Some example_table, CACHE_TIMESTAMP = Some 900\<rparr>;
        r2 = load_data_from_sheets example_pd (Spreadsheet example_sheets) False 1001
               (cache_after r1)
    in fetches r1 + fetches r2 = 0)"
  by (simp add: two_calls_examples(1) try_load_Unavailable load_data_from_sheets_def
      fetch_fresh_def CACHE_DURATION_def Let_def)

text \<open>
  C1, as amended. When a call goes to the remote source and the attempt raises, the
  loader returns the fixed table without rows, \<open>EMPTY_FRAME\<close>, whether or not an
  earlier load has filled the cache. The cached table is not what the call returns; it
  stays in the cache as it was.
\<close>

theorem failed_load_returns_empty_frame:
  "\<not> cache_is_fresh force_refresh current_time st \<and> try_load P rem = Raised e \<longrightarrow>
     returned (load_data_from_sheets P rem force_refresh current_time st) = EMPTY_FRAME \<and>
     fetches (load_data_from_sheets P rem force_refresh current_time st) = 1 \<and>
     DATA_CACHE (cache_after (load_data_from_sheets P rem force_refresh current_time st)) =
       DATA_CACHE st"
  by (simp add: load_not_fresh_failed)

theorem failed_load_returns_empty_frame_witness:
  "\<not> cache_is_fresh False 1000 \<lparr>DATA_CACHE = Some example_table, CACHE_TIMESTAMP = Some 0\<rparr> \<and>
   try_load example_pd Unavailable = Raised RemoteError \<and>
   returned (load_data_from_sheets example_pd Unavailable False 1000
      \<lparr>DATA_CACHE = Some example_table, CACHE_TIMESTAMP = Some 0\<rparr>) = EMPTY_FRAME \<and>
   DATA_CACHE (cache_after (load_data_from_sheets example_pd Unavailable False 1000
      \<lparr>DATA_CACHE = Some example_table, CACHE_TIMESTAMP = Some 0\<rparr>)) = Some example_table"
  using failed_load_returns_empty_frame
    [of False 1000 "\<lparr>DATA_CACHE = Some example_table, CACHE_TIMESTAMP = Some 0\<rparr>"
        example_pd Unavailable RemoteError]
  by (simp add: cache_is_fresh_def CACHE_DURATION_def try_load_Unavailable)

text \<open>
  The claim as it was stated fails: the cache holds \<open>example_table\<close>, loaded at time 0;
  at time 1000 the remote source is unavailable; the call returns \<open>EMPTY_FRAME\<close>, which
  is not the cached table.
\<close>

theorem stale_copy_counterexample:
  "try_load example_pd Unavailable = Raised RemoteError \<and>
   returned (load_data_from_sheets example_pd Unavailable False 1000
      \<lparr>DATA_CACHE = Some example_table, CACHE_TIMESTAMP = Some 0\<rparr>) \<noteq> example_table"
  by (simp add: load_data_from_sheets_def fetch_fresh_def CACHE_DURATION_def
      try_load_Unavailable EMPTY_FRAME_def example_table_def)

text \<open>
  C10. A call whose attempt raises leaves both cache variables as they were, for every
  cache state, time and \<^verbatim>\<open>force_refresh\<close>. The cache variables change only when the
  call went to the remote source and a table with at least one row was loaded; they
  then hold that table and the time of the call.
\<close>

theorem failed_load_keeps_cache:
  "(try_load P rem = Raised e \<longrightarrow>
      cache_after (load_data_from_sheets P rem force_refresh current_time st) = st) \<and>
   (cache_after (load_data_from_sheets P rem force_refresh current_time st) \<noteq> st \<longrightarrow>
      (\<exists>df. try_load P rem = Loaded df \<and> rows df \<noteq> [] \<and>
            \<not> cache_is_fresh force_refresh current_time st \<and>
            cache_after (load_data_from_sheets P rem force_refresh current_time st) =
              \<lparr>DATA_CACHE = Some df, CACHE_TIMESTAMP = Some current_time\<rparr>))"
proof (intro conjI impI)
  assume "try_load P rem = Raised e"
  then show "cache_after (load_data_from_sheets P rem force_refresh current_time st) = st"
    by (auto simp: load_data_from_sheets_def fetch_fresh_def split: option.splits)
next
  assume changed: "cache_after (load_data_from_sheets P rem force_refresh current_time st) \<noteq> st"
  show "\<exists>df. try_load P rem = Loaded df \<and> rows df \<noteq> [] \<and>
            \<not> cache_is_fresh force_refresh current_time st \<and>
            cache_after (load_data_from_sheets P rem force_refresh current_time st) =
              \<lparr>DATA_CACHE = Some df, CACHE_TIMESTAMP = Some current_time\<rparr>"
  proof (cases "cache_is_fresh force_refresh current_time st")
    case True
    from load_fresh [OF this, of P rem] changed show ?thesis
      by auto
  next
    case False
    show ?thesis
    proof (cases "\<exists>df. try_load P rem = Loaded df")
      case True
      then obtain df where df: "try_load P rem = Loaded df" ..
      with False try_load_Loaded_rows [OF df] show ?thesis
        by (simp add: load_not_fresh_Loaded)
    next
      case no: False
      with False changed show ?thesis
        by (simp add: load_not_fresh_failed)
    qed
  qed
qed

theorem failed_load_keeps_cache_witness:
  "try_load example_pd Unavailable = Raised RemoteError \<and>
   cache_after (load_data_from_sheets example_pd Unavailable True 1000
      \<lparr>DATA_CACHE = Some example_table, CACHE_TIMESTAMP = Some 900\<rparr>) =
     \<lparr>DATA_CACHE = Some example_table, CACHE_TIMESTAMP = Some 900\<rparr> \<and>
   cache_after (load_data_from_sheets example_pd (Spreadsheet example_sheets) False 1000
      \<lparr>DATA_CACHE = None, CACHE_TIMESTAMP = None\<rparr>) \<noteq> \<lparr>DATA_CACHE = None, CACHE_TIMESTAMP = None\<rparr> \<and>
   cache_after (load_data_from_sheets example_pd (Spreadsheet example_sheets) False 1000
      \<lparr>DATA_CACHE = None, CACHE_TIMESTAMP = None\<rparr>) =
     \<lparr>DATA_CACHE = Some example_table, CACHE_TIMESTAMP = Some 1000\<rparr>"
  using failed_load_keeps_cache
    [of example_pd Unavailable RemoteError True 1000
        "\<lparr>DATA_CACHE = Some example_table, CACHE_TIMESTAMP = Some 900\<rparr>"]
    failed_load_keeps_cache
    [of example_pd "Spreadsheet example_sheets" RemoteError False 1000
        "\<lparr>DATA_CACHE = None, CACHE_TIMESTAMP = None\<rparr>"]
  by (simp add: example_try_load try_load_Unavailable load_data_from_sheets_def
      fetch_fresh_def cache_is_fresh_def)

section \<open>Properties of the filters\<close>

lemma columns_select_rows [simp]: "columns (select_rows p T) = columns T"
  by (simp add: select_rows_def)

lemma rows_select_rows [simp]: "rows (select_rows p T) = filter p (rows T)"
  by (simp add: select_rows_def)

lemma get_cell_select_rows [simp]: "get_cell (select_rows p T) c r = get_cell T c r"
  by (simp add: get_cell_def)

lemma select_rows_twice: "select_rows q (select_rows p T) = select_rows (\<lambda>r. p r \<and> q r) T"
  by (simp add: select_rows_def)

lemma select_rows_cong:
  "(\<And>r. r \<in> set (rows T) \<Longrightarrow> p r = q r) \<Longrightarrow> select_rows p T = select_rows q T"
  by (simp add: select_rows_def cong: filter_cong)

lemma select_rows_all: "(\<And>r. r \<in> set (rows T) \<Longrightarrow> p r) \<Longrightarrow> select_rows p T = T"
  by (simp add: select_rows_def)

lemma select_rows_True: "select_rows (\<lambda>r. True) T = T"
  by (simp add: select_rows_def)

lemma filter_dates_select:
  "filter_dates lo hi T =
     select_rows (\<lambda>r. ''converteddate'' \<in> set (columns T) \<longrightarrow>
                       date_between lo hi (get_cell T ''converteddate'' r)) T"
  by (simp add: filter_dates_def select_rows_True)

lemma filter_isin_select:
  "filter_isin col vals T =
     select_rows (\<lambda>r. vals \<noteq> [] \<and> col \<in> set (columns T) \<longrightarrow> isin vals (get_cell T col r)) T"
  by (auto simp add: filter_isin_def select_rows_True)

text \<open>The four filters in sequence keep exactly the rows that pass every condition.\<close>

lemma apply_filters_select: "apply_filters sel T = select_rows (row_passes sel T) T"
  unfolding apply_filters_def Let_def filter_dates_select filter_isin_select
  by (simp add: select_rows_twice row_passes_def [abs_def])

lemma columns_apply_filters [simp]: "columns (apply_filters sel T) = columns T"
  by (simp add: apply_filters_select)

lemma row_passes_cong_columns: "columns T' = columns T \<Longrightarrow> row_passes sel T' = row_passes sel T"
  by (simp add: row_passes_def fun_eq_iff get_cell_def)

lemma date_between_combine:
  "date_between (max a b) (min c d) x \<longleftrightarrow> date_between a c x \<and> date_between b d x"
  by (cases x) (auto simp: date_between_def)

lemma isin_combine:
  "dims_meet a b \<Longrightarrow>
   (spec_combine_dim a b \<noteq> [] \<and> P \<longrightarrow> isin (spec_combine_dim a b) x) \<longleftrightarrow>
   (a \<noteq> [] \<and> P \<longrightarrow> isin a x) \<and> (b \<noteq> [] \<and> P \<longrightarrow> isin b x)"
  by (cases x) (auto simp: dims_meet_def spec_combine_dim_def isin_def list_ex_iff filter_empty_conv)

lemma row_passes_combine:
  assumes "dims_meet (batch_filter s1) (batch_filter s2)"
      and "dims_meet (exam_filter s1) (exam_filter s2)"
      and "dims_meet (plan_filter s1) (plan_filter s2)"
  shows "row_passes (spec_combine s1 s2) T r \<longleftrightarrow> row_passes s1 T r \<and> row_passes s2 T r"
proof -
  note b = isin_combine [OF assms(1), of "''name'' \<in> set (columns T)" "get_cell T ''name'' r"]
  note e = isin_combine [OF assms(2), of "''Exam_2'' \<in> set (columns T)" "get_cell T ''Exam_2'' r"]
  note p = isin_combine [OF assms(3), of "''plan'' \<in> set (columns T)" "get_cell T ''plan'' r"]
  have "row_passes (spec_combine s1 s2) T r \<longleftrightarrow>
        ((''converteddate'' \<in> set (columns T) \<longrightarrow>
            date_between (start_date s1) (end_date s1) (get_cell T ''converteddate'' r) \<and>
            date_between (start_date s2) (end_date s2) (get_cell T ''converteddate'' r)) \<and>
         ((batch_filter s1 \<noteq> [] \<and> ''name'' \<in> set (columns T) \<longrightarrow>
             isin (batch_filter s1) (get_cell T ''name'' r)) \<and>
          (batch_filter s2 \<noteq> [] \<and> ''name'' \<in> set (columns T) \<longrightarrow>
             isin (batch_filter s2) (get_cell T ''name'' r))) \<and>
         ((exam_filter s1 \<noteq> [] \<and> ''Exam_2'' \<in> set (columns T) \<longrightarrow>
             isin (exam_filter s1) (get_cell T ''Exam_2'' r)) \<and>
          (exam_filter s2 \<noteq> [] \<and> ''Exam_2'' \<in> set (columns T) \<longrightarrow>
             isin (exam_filter s2) (get_cell T ''Exam_2'' r))) \<and>
         ((plan_filter s1 \<noteq> [] \<and> ''plan'' \<in> set (columns T) \<longrightarrow>
             isin (plan_filter s1) (get_cell T ''plan'' r)) \<and>
          (plan_filter s2 \<noteq> [] \<and> ''plan'' \<in> set (columns T) \<longrightarrow>
             isin (plan_filter s2) (get_cell T ''plan'' r))))"
    unfolding row_passes_def spec_combine_def
    by (simp only: selection.simps date_between_combine b e p)
  also have "\<dots> \<longleftrightarrow> row_passes s1 T r \<and> row_passes s2 T r"
    by (auto simp: row_passes_def)
  finally show ?thesis .
qed

text \<open>
  C6. A selection whose batch, exam and plan lists are empty, and whose date range holds
  the date of every row of \<open>T\<close> (when \<open>T\<close> has the column \<open>converteddate\<close>), leaves \<open>T\<close>
  as it is: same columns, same rows, same order.
\<close>

theorem identity_filter:
  "batch_filter sel = [] \<and> exam_filter sel = [] \<and> plan_filter sel = [] \<and>
   (''converteddate'' \<in> set (columns T) \<longrightarrow>
      (\<forall>r \<in> set (rows T).
         date_between (start_date sel) (end_date sel) (get_cell T ''converteddate'' r)))
   \<longrightarrow> apply_filters sel T = T"
  by (auto simp: apply_filters_select row_passes_def intro!: select_rows_all)

theorem identity_filter_witness:
  "batch_filter (only_batches []) = [] \<and> exam_filter (only_batches []) = [] \<and>
   plan_filter (only_batches []) = [] \<and> ''converteddate'' \<in> set (columns example_table) \<and>
   list_all (\<lambda>r. date_between (start_date (only_batches [])) (end_date (only_batches []))
                    (get_cell example_table ''converteddate'' r)) (rows example_table) \<and>
   apply_filters (only_batches []) example_table = example_table"
proof -
  have h: "list_all (\<lambda>r. date_between (start_date (only_batches [])) (end_date (only_batches []))
                    (get_cell example_table ''converteddate'' r)) (rows example_table)"
    by code_simp
  have c: "''converteddate'' \<in> set (columns example_table)"
    by (simp add: example_table_def)
  from identity_filter [of "only_batches []" example_table] h c show ?thesis
    by (simp add: only_batches_def list_all_iff)
qed

text \<open>
  C7, as amended. Filtering by \<open>s1\<close> and then by \<open>s2\<close> gives the same table as filtering
  once by the combined selection, provided that in each of the three dimensions the
  two lists can be intersected without losing the restriction: one of them is empty,
  or they have an element in common.
\<close>

theorem filters_compose:
  "dims_meet (batch_filter s1) (batch_filter s2) \<and>
   dims_meet (exam_filter s1) (exam_filter s2) \<and>
   dims_meet (plan_filter s1) (plan_filter s2) \<longrightarrow>
   apply_filters s2 (apply_filters s1 T) = apply_filters (spec_combine s1 s2) T"
proof
  assume h: "dims_meet (batch_filter s1) (batch_filter s2) \<and>
   dims_meet (exam_filter s1) (exam_filter s2) \<and>
   dims_meet (plan_filter s1) (plan_filter s2)"
  have "apply_filters s2 (apply_filters s1 T) =
          select_rows (row_passes s2 T) (select_rows (row_passes s1 T) T)"
    by (simp add: apply_filters_select
        row_passes_cong_columns [of "select_rows (row_passes s1 T) T" T])
  also have "\<dots> = select_rows (\<lambda>r. row_passes s1 T r \<and> row_passes s2 T r) T"
    by (rule select_rows_twice)
  also have "\<dots> = select_rows (row_passes (spec_combine s1 s2) T) T"
    using h by (intro select_rows_cong) (simp add: row_passes_combine)
  finally show "apply_filters s2 (apply_filters s1 T) = apply_filters (spec_combine s1 s2) T"
    by (simp add: apply_filters_select)
qed

theorem filters_compose_witness:
  "dims_meet (batch_filter (only_batches [''A'', ''B''])) (batch_filter (only_batches [''B''])) \<and>
   dims_meet (exam_filter (only_batches [''A'', ''B''])) (exam_filter (only_batches [''B''])) \<and>
   dims_meet (plan_filter (only_batches [''A'', ''B''])) (plan_filter (only_batches [''B''])) \<and>
   apply_filters (only_batches [''B'']) (apply_filters (only_batches [''A'', ''B'']) two_batches) =
     apply_filters (spec_combine (only_batches [''A'', ''B'']) (only_batches [''B''])) two_batches \<and>
   rows (apply_filters (spec_combine (only_batches [''A'', ''B'']) (only_batches [''B''])) two_batches)
     = [[Str ''B'', Str ''X'']]"
proof -
  have h: "dims_meet (batch_filter (only_batches [''A'', ''B''])) (batch_filter (only_batches [''B''])) \<and>
   dims_meet (exam_filter (only_batches [''A'', ''B''])) (exam_filter (only_batches [''B''])) \<and>
   dims_meet (plan_filter (only_batches [''A'', ''B''])) (plan_filter (only_batches [''B'']))"
    by code_simp
  have r: "rows (apply_filters (spec_combine (only_batches [''A'', ''B'']) (only_batches [''B'']))
             two_batches) = [[Str ''B'', Str ''X'']]"
    by code_simp
  from filters_compose [of "only_batches [''A'', ''B'']" "only_batches [''B'']" two_batches] h r
  show ?thesis by simp
qed

text \<open>
  The claim as it was stated fails where two selections name different batches: the
  first keeps the rows of batch A, the second keeps none of them; the intersection of
  the two lists is empty, which the filter reads as no restriction, so the combined
  selection keeps both rows.
\<close>

theorem filters_compose_counterexample:
  "rows (apply_filters (only_batches [''B'']) (apply_filters (only_batches [''A'']) two_batches)) = [] \<and>
   rows (apply_filters (spec_combine (only_batches [''A'']) (only_batches [''B''])) two_batches) =
     [[Str ''A'', Str ''X''], [Str ''B'', Str ''X'']] \<and>
   apply_filters (only_batches [''B'']) (apply_filters (only_batches [''A'']) two_batches) \<noteq>
     apply_filters (spec_combine (only_batches [''A'']) (only_batches [''B''])) two_batches"
  by code_simp


section \<open>Properties of the aggregates\<close>











lemma sum_list_insort_key:
  "sum_list (map f (insort_key g x xs)) = (f x :: nat) + sum_list (map f xs)"
  by (induction xs) auto

lemma sum_list_sort_key: "sum_list (map f (sort_key g xs)) = (sum_list (map f xs) :: nat)"
  by (induction xs) (auto simp: sum_list_insort_key)

lemma sum_list_indicator:
  "distinct ks \<Longrightarrow> (\<Sum>k\<leftarrow>ks. if k = s then 1 else 0) = (if s \<in> set ks then 1 else (0::nat))"
  by (induction ks) auto

lemma group_sizes_sum:
  assumes "distinct ks" and "\<And>r s. r \<in> set rs \<Longrightarrow> key r = Str s \<Longrightarrow> s \<in> set ks"
  shows "(\<Sum>k\<leftarrow>ks. length (filter (\<lambda>r. key r = Str k) rs)) =
         length (filter (\<lambda>r. \<exists>s. key r = Str s) rs)"
  using assms(2)
proof (induction rs)
  case Nil
  then show ?case by simp
next
  case (Cons r rs)
  have ih: "(\<Sum>k\<leftarrow>ks. length (filter (\<lambda>r. key r = Str k) rs)) =
         length (filter (\<lambda>r. \<exists>s. key r = Str s) rs)"
    using Cons.prems by (intro Cons.IH) auto
  have "(\<Sum>k\<leftarrow>ks. length (filter (\<lambda>r. key r = Str k) (r # rs))) =
        (\<Sum>k\<leftarrow>ks. (if key r = Str k then 1 else 0) + length (filter (\<lambda>r. key r = Str k) rs))"
    by (intro arg_cong [where f = sum_list] map_cong) auto
  also have "\<dots> = (\<Sum>k\<leftarrow>ks. if key r = Str k then 1 else 0) +
                  (\<Sum>k\<leftarrow>ks. length (filter (\<lambda>r. key r = Str k) rs))"
    by (simp add: sum_list_addf)
  also have "(\<Sum>k\<leftarrow>ks. if key r = Str k then 1 else 0) = (if \<exists>s. key r = Str s then 1 else (0::nat))"
  proof (cases "\<exists>s. key r = Str s")
    case True
    then obtain s where s: "key r = Str s" ..
    with Cons.prems [of r s] have "s \<in> set ks" by simp
    with sum_list_indicator [OF assms(1), of s] s show ?thesis
      by (simp add: eq_commute [of s])
  next
    case False
    then show ?thesis by simp
  qed
  finally show ?case
    using ih by simp
qed

lemma set_str_keys: "set (str_keys T col) = {s. Str s \<in> set (series T col)}"
  by (auto simp: str_keys_def split: cell.splits)

lemma distinct_str_keys: "distinct (str_keys T col)"
  by (simp add: str_keys_def)

lemma total_enrollments_batch_row_of:
  "total_enrollments (batch_row_of T k) = length (filter (\<lambda>r. get_cell T ''name'' r = Str k) (rows T))"
  by (simp add: batch_row_of_def Let_def group_rows_def)

text \<open>
  The count in the totals row is the number of rows that have a batch name; it is the
  number of all rows exactly when no row lacks one.
\<close>

lemma totals_count_named_rows:
  "sum_list (map total_enrollments (batch_rows T)) =
   length (filter (\<lambda>r. \<exists>s. get_cell T ''name'' r = Str s) (rows T))"
proof -
  have "sum_list (map total_enrollments (batch_rows T)) =
        (\<Sum>k\<leftarrow>str_keys T ''name''. length (filter (\<lambda>r. get_cell T ''name'' r = Str k) (rows T)))"
    by (simp add: batch_rows_def sum_list_sort_key comp_def total_enrollments_batch_row_of)
  also have "\<dots> = length (filter (\<lambda>r. \<exists>s. get_cell T ''name'' r = Str s) (rows T))"
    by (intro group_sizes_sum distinct_str_keys) (force simp: set_str_keys series_def image_iff)
  finally show ?thesis .
qed

lemma totals_count_all_rows:
  "(\<And>r. r \<in> set (rows T) \<Longrightarrow> \<exists>s. get_cell T ''name'' r = Str s) \<Longrightarrow>
   sum_list (map total_enrollments (batch_rows T)) = length (rows T)"
  by (simp add: totals_count_named_rows)

lemma dashboard_table_footer_count:
  "dashboard_table T = Inr (Some tbl) \<Longrightarrow>
   FooterCount (length (filter (\<lambda>r. \<exists>s. get_cell T ''name'' r = Str s) (rows T)))
     \<in> set (footer_cells tbl)"
  by (auto simp: dashboard_table_def Let_def totals_count_named_rows split: if_splits)

text \<open>
  The trend has one pair for every timestamp that occurs in the rows of the last seven
  days, in ascending order, with the number of rows of that timestamp.
\<close>

lemma last_7_trend_entries:
  assumes "last_7_trend sel T = Some xs"
  shows "sorted (map fst xs)" and "distinct (map fst xs)"
    and "set (map fst xs) = {t. Ts t \<in> set (series (last_7_days sel T) ''converteddate'')}"
    and "\<And>t n. (t, n) \<in> set xs \<Longrightarrow>
           n = length (filter (\<lambda>r. get_cell T ''converteddate'' r = Ts t) (rows (last_7_days sel T)))"
proof -
  let ?W = "last_7_days sel T"
  from assms have xs: "xs = map (\<lambda>t. (t, length (group_rows ?W ''converteddate'' (Ts t))))
                        (ts_keys ?W ''converteddate'')"
    by (auto simp: last_7_trend_def Let_def split: if_splits)
  have fst: "map fst xs = ts_keys ?W ''converteddate''"
    by (simp add: xs comp_def)
  show "sorted (map fst xs)" "distinct (map fst xs)"
    by (simp_all add: fst ts_keys_def)
  show "set (map fst xs) = {t. Ts t \<in> set (series ?W ''converteddate'')}"
    unfolding fst by (auto simp: ts_keys_def split: cell.splits)
  have cols: "columns ?W = columns T"
    by (simp add: last_7_days_def)
  show "n = length (filter (\<lambda>r. get_cell T ''converteddate'' r = Ts t) (rows ?W))"
    if "(t, n) \<in> set xs" for t n
    using that by (auto simp: xs group_rows_def get_cell_def cols)
qed

lemma since_cases:
  "(case c of Ts t \<Rightarrow> lo \<le> t | _ \<Rightarrow> False) = (\<exists>t. c = Ts t \<and> lo \<le> t)"
  by (cases c) auto

lemma rows_last_7_days:
  "''converteddate'' \<in> set (columns T) \<Longrightarrow>
   rows (last_7_days sel T) =
     filter (\<lambda>r. \<exists>t. get_cell T ''converteddate'' r = Ts t \<and> end_date sel - 7 * ns_per_day \<le> t)
       (rows T)"
  by (simp add: last_7_days_def since_cases)

text \<open>
  C5: what the code does on two enrollments of the same calendar day. The worksheet
  holds two rows dated 5 January 2024, at 10:00 and at 11:00. The loader keeps the time
  of day, the selection covers both rows, and the trend has two pairs, one per
  timestamp, both of calendar day 19727 (days since the epoch): the rows are grouped
  by the value of \<open>converteddate\<close>, not by its calendar date.
\<close>

theorem trend_groups_by_timestamp:
  "try_load example_pd (Spreadsheet timed_sheets) = Loaded timed_table \<and>
   apply_filters (only_batches []) timed_table = timed_table \<and>
   last_7_trend (only_batches []) timed_table =
     Some [(19727 * ns_per_day + 36000000000000, 1), (19727 * ns_per_day + 39600000000000, 1)] \<and>
   (19727 * ns_per_day + 36000000000000) div ns_per_day = 19727 \<and>
   (19727 * ns_per_day + 39600000000000) div ns_per_day = 19727"
  by code_simp

text \<open>
  C4: what the code does on a table with a row that has no batch name. Of two
  worksheets only the first has a \<open>name\<close> column, so the row of the second has a
  missing name in the loaded table. The selection keeps both rows. \<^verbatim>\<open>groupby('name')\<close>
  leaves the row without a name out of every group: the footer of the table on the
  page and the total row of the export count 1 enrollment, while the table has 2 rows
  and the caption under the table says 2.
\<close>

theorem totals_row_skips_unnamed_rows:
  "try_load example_pd (Spreadsheet mixed_sheets) = Loaded mixed_table \<and>
   apply_filters (only_batches []) mixed_table = mixed_table \<and>
   length (rows mixed_table) = 2 \<and>
   dashboard_table mixed_table =
     Inr (Some
       \<lparr>table_columns = [BatchName, ExamCategory, TotalEnrollments],
        table_rows =
          [\<lparr>batch_name = ''A'', exam_category = Some (Str ''X''), revenue_cr = None,
            order_types = None, leader = None, total_enrollments = 1\<rparr>],
        footer_cells = [FooterText ''TOTAL'', FooterText [], FooterCount 1],
        caption_batches = 1, caption_enrollments = 2\<rparr>) \<and>
   export_table mixed_table =
     Inr (Some
       ([BatchName, TotalEnrollments, ExamCategory],
        [\<lparr>batch_name = ''A'', exam_category = Some (Str ''X''), revenue_cr = None,
           order_types = None, leader = None, total_enrollments = 1\<rparr>],
        [FooterText ''TOTAL'', FooterCount 1, FooterText []]))"
  by code_simp


section \<open>The invariant of normalised tables\<close>

lemma is_ts_iff: "is_ts c \<longleftrightarrow> (\<exists>t. c = Ts t)"
  by (cases c) (simp_all add: is_ts_def)

lemma is_num_iff: "is_num c \<longleftrightarrow> (\<exists>q. c = Num q)"
  by (cases c) (simp_all add: is_num_def)

lemma and_then_Inr: "and_then r f = Inr y \<longleftrightarrow> (\<exists>x. r = Inr x \<and> f x = Inr y)"
  by (cases r) (simp_all add: and_then_def)

lemma fold_max_ge_init: "(a::nat) \<le> fold max xs a"
  by (induction xs arbitrary: a) (auto intro: order_trans [OF max.cobounded2])

lemma fold_max_ge: "x \<in> set xs \<Longrightarrow> x \<le> fold max xs (a::nat)"
proof (induction xs arbitrary: a)
  case Nil
  then show ?case by simp
next
  case (Cons y ys)
  show ?case
  proof (cases "x = y")
    case True
    have "y \<le> max y a" by simp
    also have "\<dots> \<le> fold max ys (max y a)" by (rule fold_max_ge_init)
    finally show ?thesis using True by simp
  next
    case False
    with Cons show ?thesis by simp
  qed
qed

lemma wf_tableI: "(\<And>r. r \<in> set (rows T) \<Longrightarrow> length r = length (columns T)) \<Longrightarrow> wf_table T"
  by (simp add: wf_table_def list_all_iff)

lemma wf_tableD: "wf_table T \<Longrightarrow> r \<in> set (rows T) \<Longrightarrow> length r = length (columns T)"
  by (simp add: wf_table_def list_all_iff)

lemma col_allI: "(\<And>r. r \<in> set (rows T) \<Longrightarrow> p (get_cell T c r)) \<Longrightarrow> col_all p c T"
  by (simp add: col_all_def list_all_iff)

lemma col_allD: "col_all p c T \<Longrightarrow> r \<in> set (rows T) \<Longrightarrow> p (get_cell T c r)"
  by (simp add: col_all_def list_all_iff)

lemma DataFrame_Inr:
  assumes "DataFrame data cols = Inr T"
  shows "wf_table T \<and> columns T = cols"
proof (cases "data = []")
  case True
  with assms show ?thesis by (auto simp: DataFrame_def wf_table_def)
next
  case False
  define width where "width = fold max (map length data) 0"
  from assms False have w: "width = length cols"
    and T: "T = \<lparr>columns = cols, rows = map (\<lambda>r. map Str r @ replicate (width - length r) Null) data\<rparr>"
    by (auto simp: DataFrame_def Let_def width_def split: if_splits)
  have "length r \<le> width" if "r \<in> set data" for r
    unfolding width_def using that by (intro fold_max_ge) simp
  then show ?thesis
    by (auto simp: T w [symmetric] intro!: wf_tableI)
qed

lemma length_series [simp]: "length (series T c) = length (rows T)"
  by (simp add: series_def)

lemma col_index_less: "c \<in> set cols \<Longrightarrow> col_index cols c < length cols"
  by (induction cols) (auto simp: col_index_def)

lemma col_index_neq: "c \<in> set cols \<Longrightarrow> c' \<noteq> c \<Longrightarrow> col_index cols c' \<noteq> col_index cols c"
  by (induction cols) (auto simp: col_index_def)

lemma columns_set_col_existing: "c \<in> set (columns T) \<Longrightarrow> columns (set_col T c vs) = columns T"
  by (simp add: set_col_def)

lemma length_rows_set_col: "length vs = length (rows T) \<Longrightarrow> length (rows (set_col T c vs)) = length (rows T)"
  by (simp add: set_col_def)

lemma wf_set_col:
  assumes "wf_table T" and "length vs = length (rows T)"
  shows "wf_table (set_col T c vs)"
proof (cases "c \<in> set (columns T)")
  case True
  show ?thesis
  proof (rule wf_tableI)
    fix r' assume "r' \<in> set (rows (set_col T c vs))"
    with True obtain r v where "(r, v) \<in> set (zip (rows T) vs)"
      and "r' = r[col_index (columns T) c := v]"
      by (auto simp: set_col_def)
    with assms(1) True show "length r' = length (columns (set_col T c vs))"
      by (auto simp: set_col_def dest!: set_zip_leftD wf_tableD)
  qed
next
  case False
  show ?thesis
  proof (rule wf_tableI)
    fix r' assume "r' \<in> set (rows (set_col T c vs))"
    with False obtain r v where "(r, v) \<in> set (zip (rows T) vs)" and "r' = r @ [v]"
      by (auto simp: set_col_def)
    with assms(1) False show "length r' = length (columns (set_col T c vs))"
      by (auto simp: set_col_def dest!: set_zip_leftD wf_tableD)
  qed
qed

lemma col_all_set_col_same:
  assumes "wf_table T" and "c \<in> set (columns T)" and "list_all p vs"
  shows "col_all p c (set_col T c vs)"
proof (rule col_allI)
  fix r' assume "r' \<in> set (rows (set_col T c vs))"
  with assms(2) obtain r v where rv: "(r, v) \<in> set (zip (rows T) vs)"
    and r': "r' = r[col_index (columns T) c := v]"
    by (auto simp: set_col_def)
  from rv have "r \<in> set (rows T)" and "v \<in> set vs"
    by (auto dest: set_zip_leftD set_zip_rightD)
  with assms have "length r = length (columns T)" and "p v"
    by (auto dest: wf_tableD simp: list_all_iff)
  with col_index_less [OF assms(2)] show "p (get_cell (set_col T c vs) c r')"
    by (simp add: get_cell_def Let_def r' columns_set_col_existing [OF assms(2)])
qed

lemma col_all_set_col_other:
  assumes "c \<in> set (columns T)" and "c' \<noteq> c" and "col_all p c' T"
  shows "col_all p c' (set_col T c vs)"
proof (rule col_allI)
  fix r' assume "r' \<in> set (rows (set_col T c vs))"
  with assms(1) obtain r v where rv: "(r, v) \<in> set (zip (rows T) vs)"
    and r': "r' = r[col_index (columns T) c := v]"
    by (auto simp: set_col_def)
  from rv have "r \<in> set (rows T)"
    by (auto dest: set_zip_leftD)
  with assms(3) have "p (get_cell T c' r)"
    by (rule col_allD)
  with col_index_neq [OF assms(1,2)] show "p (get_cell (set_col T c vs) c' r')"
    by (auto simp: get_cell_def Let_def r' columns_set_col_existing [OF assms(1)] nth_list_update)
qed


lemma list_all_coerce_datetime: "list_all (\<lambda>x. x = Null \<or> is_ts x) (coerce_datetime P col)"
  by (auto simp: coerce_datetime_def list_all_iff is_ts_def split: option.splits)

lemma length_coerce_datetime [simp]: "length (coerce_datetime P col) = length col"
  by (simp add: coerce_datetime_def)

lemma list_all_coerce_numeric: "list_all is_num (coerce_numeric P col)"
  by (auto simp: coerce_numeric_def list_all_iff is_num_def split: cell.splits option.splits)

lemma length_coerce_numeric [simp]: "length (coerce_numeric P col) = length col"
  by (simp add: coerce_numeric_def)

lemma convert_dates_Inr:
  assumes "convert_dates P c T = Inr T'" and "wf_table T"
  shows "wf_table T'" and "columns T' = columns T"
    and "c \<in> set (columns T) \<Longrightarrow> col_all (\<lambda>x. x = Null \<or> is_ts x) c T'"
    and "\<And>p c'. c' \<noteq> c \<Longrightarrow> col_all p c' T \<Longrightarrow> col_all p c' T'"
  using assms
  by (auto simp: convert_dates_def wf_set_col columns_set_col_existing
      col_all_set_col_same list_all_coerce_datetime col_all_set_col_other split: if_splits)

lemma convert_numeric_Inr:
  assumes "convert_numeric P c T = Inr T'" and "wf_table T"
  shows "wf_table T'" and "columns T' = columns T"
    and "c \<in> set (columns T) \<Longrightarrow> col_all is_num c T'"
    and "\<And>p c'. c' \<noteq> c \<Longrightarrow> col_all p c' T \<Longrightarrow> col_all p c' T'"
  using assms
  by (auto simp: convert_numeric_def wf_set_col columns_set_col_existing
      col_all_set_col_same list_all_coerce_numeric col_all_set_col_other split: if_splits)

lemma convert_numeric_keeps_num:
  assumes "convert_numeric P c T = Inr T'" and "wf_table T" and "col_all is_num c' T"
  shows "col_all is_num c' T'"
proof (cases "c' = c")
  case True
  show ?thesis
  proof (cases "c \<in> set (columns T)")
    case True
    from convert_numeric_Inr(3) [OF assms(1,2) True] \<open>c' = c\<close> show ?thesis by simp
  next
    case False
    with assms(1) have "T' = T" by (simp add: convert_numeric_def)
    with assms(3) show ?thesis by simp
  qed
next
  case False
  from convert_numeric_Inr(4) [OF assms(1,2) False assms(3)] show ?thesis .
qed

lemma numeric_loop:
  "for_each_col (convert_numeric P) cs T = Inr T' \<Longrightarrow> wf_table T \<Longrightarrow>
   wf_table T' \<and> columns T' = columns T \<and>
   (\<forall>c \<in> set cs. c \<in> set (columns T) \<longrightarrow> col_all is_num c T') \<and>
   (\<forall>p c'. c' \<notin> set cs \<longrightarrow> col_all p c' T \<longrightarrow> col_all p c' T') \<and>
   (\<forall>c'. col_all is_num c' T \<longrightarrow> col_all is_num c' T')"
proof (induction cs arbitrary: T)
  case Nil
  then show ?case by simp
next
  case (Cons c cs)
  from Cons.prems(1) obtain T1 where s1: "convert_numeric P c T = Inr T1"
    and rest: "for_each_col (convert_numeric P) cs T1 = Inr T'"
    by (auto simp: and_then_Inr)
  note a = convert_numeric_Inr [OF s1 Cons.prems(2)]
  note k = convert_numeric_keeps_num [OF s1 Cons.prems(2)]
  note ih = Cons.IH [OF rest a(1)]
  show ?case
  proof (intro conjI ballI allI impI)
    show "wf_table T'" using ih by simp
    show "columns T' = columns T" using ih a(2) by simp
  next
    fix c0 assume "c0 \<in> set (c # cs)" and in_T: "c0 \<in> set (columns T)"
    then consider "c0 = c" | "c0 \<in> set cs" by auto
    then show "col_all is_num c0 T'"
    proof cases
      case 1
      with a(3) in_T have "col_all is_num c0 T1" by simp
      with ih show ?thesis by blast
    next
      case 2
      with ih in_T a(2) show ?thesis by simp
    qed
  next
    fix p c' assume "c' \<notin> set (c # cs)" and "col_all p c' T"
    then have "c' \<noteq> c" and "c' \<notin> set cs" and "col_all p c' T1"
      using a(4) by auto
    with ih show "col_all p c' T'" by blast
  next
    fix c' assume "col_all is_num c' T"
    then have "col_all is_num c' T1" by (rule k)
    with ih show "col_all is_num c' T'" by blast
  qed
qed

lemma string_loop: "for_each_col optimize_string_col cs T = Inr T' \<Longrightarrow> T' = T"
  by (induction cs arbitrary: T)
     (auto simp: and_then_Inr optimize_string_col_def split: if_splits)


lemma dropna_all_props:
  "columns (dropna_all T) = columns T"
  "wf_table T \<Longrightarrow> wf_table (dropna_all T)"
  "col_all p c T \<Longrightarrow> col_all p c (dropna_all T)"
  by (auto simp: dropna_all_def wf_table_def col_all_def list_all_iff get_cell_def)

lemma keep_notna_props:
  "columns (keep_notna c T) = columns T"
  "col_all p c' T \<Longrightarrow> col_all p c' (keep_notna c T)"
  "col_all (\<lambda>x. x = Null \<or> is_ts x) c T \<Longrightarrow> col_all is_ts c (keep_notna c T)"
  by (auto simp: keep_notna_def col_all_def list_all_iff get_cell_def)

lemma wf_strip:
  "wf_table T \<Longrightarrow> wf_table (T\<lparr>columns := map f (columns T)\<rparr>)"
  by (simp add: wf_table_def)

lemma wf_copy_column: "copy_column T src dst = Inr T' \<Longrightarrow> wf_table T \<Longrightarrow> wf_table T'"
  by (auto simp: copy_column_def wf_set_col split: if_splits)

lemma wf_handle_variations: "handle_variations T = Inr T' \<Longrightarrow> wf_table T \<Longrightarrow> wf_table T'"
  unfolding handle_variations_def and_then_Inr
  by (auto split: if_splits dest: wf_copy_column)

lemma wf_read_worksheet: "read_worksheet data = Inr T \<Longrightarrow> wf_table T"
  by (auto simp: read_worksheet_def Let_def split: if_splits dest: DataFrame_Inr)

lemma wf_load_worksheet: "load_worksheet data = Inr T \<Longrightarrow> wf_table T"
  unfolding load_worksheet_def and_then_Inr
  by (auto dest!: wf_read_worksheet intro: wf_handle_variations wf_strip)

lemma wf_load_all_worksheets: "df \<in> set (load_all_worksheets ss) \<Longrightarrow> wf_table df"
  by (auto simp: load_all_worksheets_def split: option.splits sum.splits
      dest: wf_load_worksheet [OF sym])

lemma wf_pd_concat:
  assumes "pd_concat dfs = Inr T" and "\<And>df. df \<in> set dfs \<Longrightarrow> wf_table df"
  shows "wf_table T"
proof (cases dfs)
  case Nil
  with assms(1) show ?thesis by (simp add: pd_concat_def)
next
  case (Cons df0 rest)
  show ?thesis
  proof (cases "list_all (\<lambda>df. columns df = columns df0) dfs")
    case True
    with assms(1) Cons have T: "T = \<lparr>columns = columns df0, rows = concat (map rows dfs)\<rparr>"
      by (simp add: pd_concat_def)
    show ?thesis
    proof (rule wf_tableI)
      fix r assume "r \<in> set (rows T)"
      then obtain df where df: "df \<in> set dfs" and r: "r \<in> set (rows df)"
        by (auto simp: T)
      from True df have "columns df = columns df0"
        by (simp add: list_all_iff)
      with wf_tableD [OF assms(2) [OF df] r] show "length r = length (columns T)"
        by (simp add: T)
    qed
  next
    case False
    with assms(1) Cons have
      T: "T = \<lparr>columns = union_columns dfs,
               rows = concat (map (\<lambda>df. map (reindex_row df (union_columns dfs)) (rows df)) dfs)\<rparr>"
      by (auto simp: pd_concat_def split: if_splits)
    show ?thesis
      by (rule wf_tableI) (auto simp: T reindex_row_def)
  qed
qed

lemma normalize_normalized:
  assumes "normalize P all_dfs = Inr T" and "\<And>df. df \<in> set all_dfs \<Longrightarrow> wf_table df"
  shows "normalized T"
proof -
  from assms(1) obtain T0 T1 T2 T3 T4 where
    c: "pd_concat all_dfs = Inr T0"
    and d1: "convert_dates P ''converteddate'' T0 = Inr T1"
    and d2: "convert_dates P ''startdate'' T1 = Inr T2"
    and n: "for_each_col (convert_numeric P) numeric_cols T2 = Inr T3"
    and s: "for_each_col optimize_string_col string_cols T3 = Inr T4"
    and T: "T = (if ''converteddate'' \<in> set (columns (dropna_all T4))
                 then keep_notna ''converteddate'' (dropna_all T4) else dropna_all T4)"
    unfolding normalize_def and_then_Inr Let_def by auto
  have wf0: "wf_table T0"
    using c assms(2) by (rule wf_pd_concat)
  note p1 = convert_dates_Inr [OF d1 wf0]
  note p2 = convert_dates_Inr [OF d2 p1(1)]
  note p3 = numeric_loop [OF n p2(1)]
  have T4: "T4 = T3"
    using s by (rule string_loop)
  have cols: "columns T3 = columns T0"
    using p1(2) p2(2) p3 by simp
  have colsT: "columns T = columns T0"
    by (simp add: T Let_def dropna_all_props keep_notna_props T4 cols)
  have date: "col_all is_ts ''converteddate'' T" if "''converteddate'' \<in> set (columns T)"
  proof -
    from that colsT have in0: "''converteddate'' \<in> set (columns T0)"
      by simp
    have "col_all (\<lambda>x. x = Null \<or> is_ts x) ''converteddate'' T1"
      using p1(3) [OF in0] .
    then have "col_all (\<lambda>x. x = Null \<or> is_ts x) ''converteddate'' T2"
      by (intro p2(4)) simp_all
    moreover have "''converteddate'' \<notin> set numeric_cols"
      by (simp add: numeric_cols_def)
    ultimately have "col_all (\<lambda>x. x = Null \<or> is_ts x) ''converteddate'' T3"
      using p3 by blast
    then have "col_all (\<lambda>x. x = Null \<or> is_ts x) ''converteddate'' (dropna_all T4)"
      by (simp add: T4 dropna_all_props)
    then show ?thesis
      using in0 by (simp add: T Let_def dropna_all_props keep_notna_props T4 cols)
  qed
  have num: "col_all is_num col T" if "col \<in> set numeric_cols" and "col \<in> set (columns T)" for col
  proof -
    from that colsT p1(2) p2(2) have "col \<in> set (columns T2)"
      by simp
    with p3 that(1) have "col_all is_num col T3"
      by blast
    then show ?thesis
      by (simp add: T Let_def dropna_all_props keep_notna_props T4)
  qed
  show ?thesis
    unfolding normalized_def using date num by (simp add: list_all_iff)
qed

lemma try_load_normalized: "try_load P rem = Loaded T \<Longrightarrow> normalized T"
  by (auto simp: try_load_def Let_def split: remote.splits if_splits sum.splits
      intro: normalize_normalized wf_load_all_worksheets)

lemma normalized_EMPTY_FRAME: "normalized EMPTY_FRAME"
  by (simp add: normalized_def EMPTY_FRAME_def col_all_def numeric_cols_def)

lemma count_list_le_1: "c \<notin> set cols \<Longrightarrow> count_list cols c \<le> 1"
  by (simp add: count_list_0_iff)

lemma convert_dates_unique: "convert_dates P c T = Inr T' \<Longrightarrow> count_list (columns T) c \<le> 1"
  by (auto simp: convert_dates_def count_list_0_iff split: if_splits)

lemma convert_numeric_unique: "convert_numeric P c T = Inr T' \<Longrightarrow> count_list (columns T) c \<le> 1"
  by (auto simp: convert_numeric_def count_list_0_iff split: if_splits)

lemma optimize_string_col_unique:
  "optimize_string_col c T = Inr T' \<Longrightarrow> T' = T \<and> count_list (columns T) c \<le> 1"
  by (auto simp: optimize_string_col_def count_list_0_iff split: if_splits)

lemma convert_numeric_columns: "convert_numeric P c T = Inr T' \<Longrightarrow> columns T' = columns T"
  by (auto simp: convert_numeric_def columns_set_col_existing split: if_splits)

lemma convert_dates_columns: "convert_dates P c T = Inr T' \<Longrightarrow> columns T' = columns T"
  by (auto simp: convert_dates_def columns_set_col_existing split: if_splits)

lemma numeric_loop_columns:
  "for_each_col (convert_numeric P) cs T = Inr T' \<Longrightarrow> columns T' = columns T"
proof (induction cs arbitrary: T)
  case Nil
  then show ?case by simp
next
  case (Cons c0 cs)
  from Cons.prems obtain T1 where s1: "convert_numeric P c0 T = Inr T1"
    and rest: "for_each_col (convert_numeric P) cs T1 = Inr T'"
    by (auto simp: and_then_Inr)
  from Cons.IH [OF rest] convert_numeric_columns [OF s1] show ?case by simp
qed

lemma numeric_loop_unique:
  "for_each_col (convert_numeric P) cs T = Inr T' \<Longrightarrow> c \<in> set cs \<Longrightarrow>
   count_list (columns T) c \<le> 1"
proof (induction cs arbitrary: T)
  case Nil
  then show ?case by simp
next
  case (Cons c0 cs)
  from Cons.prems(1) obtain T1 where s1: "convert_numeric P c0 T = Inr T1"
    and rest: "for_each_col (convert_numeric P) cs T1 = Inr T'"
    by (auto simp: and_then_Inr)
  show ?case
  proof (cases "c = c0")
    case True
    with convert_numeric_unique [OF s1] show ?thesis by simp
  next
    case False
    with Cons.prems(2) have "c \<in> set cs" by simp
    from Cons.IH [OF rest this] convert_numeric_columns [OF s1] show ?thesis by simp
  qed
qed

lemma string_loop_unique:
  "for_each_col optimize_string_col cs T = Inr T' \<Longrightarrow> c \<in> set cs \<Longrightarrow>
   count_list (columns T) c \<le> 1"
proof (induction cs arbitrary: T)
  case Nil
  then show ?case by simp
next
  case (Cons c0 cs)
  from Cons.prems(1) obtain T1 where s1: "optimize_string_col c0 T = Inr T1"
    and rest: "for_each_col optimize_string_col cs T1 = Inr T'"
    by (auto simp: and_then_Inr)
  show ?case
  proof (cases "c = c0")
    case True
    with optimize_string_col_unique [OF s1] show ?thesis by simp
  next
    case False
    with Cons.prems(2) have "c \<in> set cs" by simp
    from Cons.IH [OF rest this] optimize_string_col_unique [OF s1] show ?thesis by simp
  qed
qed

text \<open>
  In a loaded table each label that the loader converts or inspects occurs at most
  once: on a repeated one the loader raises. These are the labels under which the
  dashboard reads cells.
\<close>

lemma loaded_labels_unique:
  assumes "try_load P rem = Loaded T"
    and "c \<in> set ([''converteddate'', ''startdate''] @ numeric_cols @ string_cols)"
  shows "count_list (columns T) c \<le> 1"
proof -
  from assms(1) obtain all_dfs where "normalize P all_dfs = Inr T"
    by (auto simp: try_load_def Let_def split: remote.splits if_splits sum.splits)
  then obtain T0 T1 T2 T3 T4 where
    d1: "convert_dates P ''converteddate'' T0 = Inr T1"
    and d2: "convert_dates P ''startdate'' T1 = Inr T2"
    and n: "for_each_col (convert_numeric P) numeric_cols T2 = Inr T3"
    and s: "for_each_col optimize_string_col string_cols T3 = Inr T4"
    and T: "T = (if ''converteddate'' \<in> set (columns (dropna_all T4))
                 then keep_notna ''converteddate'' (dropna_all T4) else dropna_all T4)"
    unfolding normalize_def and_then_Inr Let_def by auto
  have T4: "T4 = T3"
    using s by (rule string_loop)
  have c1: "columns T1 = columns T0" using d1 by (rule convert_dates_columns)
  have c2: "columns T2 = columns T1" using d2 by (rule convert_dates_columns)
  have c3: "columns T3 = columns T2" using n by (rule numeric_loop_columns)
  have cT: "columns T = columns T3"
    by (simp add: T T4 dropna_all_props keep_notna_props)
  from assms(2) consider "c = ''converteddate''" | "c = ''startdate''"
    | "c \<in> set numeric_cols" | "c \<in> set string_cols" by auto
  then show ?thesis
  proof cases
    case 1
    with convert_dates_unique [OF d1] show ?thesis by (simp add: cT c3 c2 c1)
  next
    case 2
    with convert_dates_unique [OF d2] show ?thesis by (simp add: cT c3 c2)
  next
    case 3
    from numeric_loop_unique [OF n this] show ?thesis by (simp add: cT c3)
  next
    case 4
    from string_loop_unique [OF s this] show ?thesis by (simp add: cT)
  qed
qed

text \<open>
  C8, as amended. Whenever a loaded table has the column \<open>converteddate\<close>, every row of
  it holds a timestamp there (the rows whose date did not parse are removed); whenever
  it has one of the columns \<open>net_amount\<close>, \<open>coupondiscount\<close>, \<open>donationamount\<close>,
  \<open>ADD_ON_STORE\<close>, every row holds a number there, a missing or unparsable value having
  become 0. The property is an invariant of the cache: if the cached table has it
  before a call (an empty cache has it), the table returned and the table cached after
  the call have it. A table without one of these columns is loaded and cached without
  it.
\<close>

theorem loaded_tables_normalized:
  "(try_load P rem = Loaded df \<longrightarrow>
      (''converteddate'' \<in> set (columns df) \<longrightarrow>
         (\<forall>r \<in> set (rows df). \<exists>t. get_cell df ''converteddate'' r = Ts t)) \<and>
      (\<forall>col \<in> set numeric_cols. col \<in> set (columns df) \<longrightarrow>
         (\<forall>r \<in> set (rows df). \<exists>q. get_cell df col r = Num q))) \<and>
   ((\<forall>df. DATA_CACHE st = Some df \<longrightarrow> normalized df) \<longrightarrow>
      normalized (returned (load_data_from_sheets P rem force_refresh current_time st)) \<and>
      (\<forall>df. DATA_CACHE (cache_after (load_data_from_sheets P rem force_refresh current_time st))
              = Some df \<longrightarrow> normalized df)) \<and>
   coerce_numeric P [Null] = [Num 0] \<and>
   (to_numeric P s = None \<longrightarrow> coerce_numeric P [Str s] = [Num 0])"
proof (intro conjI impI)
  assume l: "try_load P rem = Loaded df"
  from try_load_normalized [OF l] have n: "normalized df" .
  show "\<forall>r \<in> set (rows df). \<exists>t. get_cell df ''converteddate'' r = Ts t"
    if "''converteddate'' \<in> set (columns df)"
    using n that by (simp add: normalized_def col_all_def list_all_iff is_ts_iff)
  show "\<forall>col \<in> set numeric_cols. col \<in> set (columns df) \<longrightarrow>
         (\<forall>r \<in> set (rows df). \<exists>q. get_cell df col r = Num q)"
    using n by (simp add: normalized_def col_all_def list_all_iff is_num_iff)
next
  assume inv: "\<forall>df. DATA_CACHE st = Some df \<longrightarrow> normalized df"
  let ?r = "load_data_from_sheets P rem force_refresh current_time st"
  show "normalized (returned ?r)"
  proof (cases "cache_is_fresh force_refresh current_time st")
    case True
    from load_fresh [OF this, of P rem] inv show ?thesis by auto
  next
    case False
    show ?thesis
    proof (cases "\<exists>df. try_load P rem = Loaded df")
      case True
      then obtain df where df: "try_load P rem = Loaded df" ..
      with False try_load_normalized [OF df] show ?thesis
        by (simp add: load_not_fresh_Loaded)
    next
      case no: False
      with False show ?thesis
        by (simp add: load_not_fresh_failed normalized_EMPTY_FRAME)
    qed
  qed
  show "\<forall>df. DATA_CACHE (cache_after ?r) = Some df \<longrightarrow> normalized df"
  proof (cases "cache_is_fresh force_refresh current_time st")
    case True
    from load_fresh [OF this, of P rem] inv show ?thesis by auto
  next
    case False
    show ?thesis
    proof (cases "\<exists>df. try_load P rem = Loaded df")
      case True
      then obtain df where df: "try_load P rem = Loaded df" ..
      with False try_load_normalized [OF df] show ?thesis
        by (simp add: load_not_fresh_Loaded)
    next
      case no: False
      with False inv show ?thesis
        by (simp add: load_not_fresh_failed)
    qed
  qed
next
  show "coerce_numeric P [Null] = [Num 0]"
    by (simp add: coerce_numeric_def)
next
  assume "to_numeric P s = None"
  then show "coerce_numeric P [Str s] = [Num 0]"
    by (simp add: coerce_numeric_def)
qed

lemma example_table_cells:
  "list_all (\<lambda>r. get_cell example_table ''converteddate'' r \<noteq> Null) (rows example_table)"
  "list_all (\<lambda>r. get_cell example_table ''net_amount'' r \<noteq> Null) (rows example_table)"
  "''converteddate'' \<in> set (columns example_table)"
  "''net_amount'' \<in> set (columns example_table)"
  "''net_amount'' \<in> set numeric_cols"
  "to_numeric example_pd ''twelve'' = None"
  by code_simp+

theorem loaded_tables_normalized_witness:
  "try_load example_pd (Spreadsheet example_sheets) = Loaded example_table \<and>
   ''converteddate'' \<in> set (columns example_table) \<and>
   list_all (\<lambda>r. get_cell example_table ''converteddate'' r \<noteq> Null) (rows example_table) \<and>
   ''net_amount'' \<in> set numeric_cols \<and> ''net_amount'' \<in> set (columns example_table) \<and>
   list_all (\<lambda>r. get_cell example_table ''net_amount'' r \<noteq> Null) (rows example_table) \<and>
   normalized (returned (load_data_from_sheets example_pd (Spreadsheet example_sheets) False 1000
      \<lparr>DATA_CACHE = None, CACHE_TIMESTAMP = None\<rparr>)) \<and>
   to_numeric example_pd ''twelve'' = None \<and>
   coerce_numeric example_pd [Str ''twelve''] = [Num 0]"
  using loaded_tables_normalized
    [of example_pd "Spreadsheet example_sheets" example_table
        "\<lparr>DATA_CACHE = None, CACHE_TIMESTAMP = None\<rparr>" False 1000 "''twelve''"]
  by (simp add: example_try_load example_table_cells)

text \<open>
  The claim as it was stated fails on a worksheet without the columns: the table is
  loaded and cached, and its one record has no converted date and no net amount.
\<close>

theorem loaded_tables_normalized_counterexample:
  "try_load example_pd (Spreadsheet undated_sheets) = Loaded undated_table \<and>
   DATA_CACHE (cache_after (load_data_from_sheets example_pd (Spreadsheet undated_sheets) False 1000
      \<lparr>DATA_CACHE = None, CACHE_TIMESTAMP = None\<rparr>)) = Some undated_table \<and>
   rows undated_table = [[Str ''1'', Str ''A'']] \<and>
   ''converteddate'' \<notin> set (columns undated_table) \<and>
   ''net_amount'' \<notin> set (columns undated_table) \<and>
   \<not> col_all is_ts ''converteddate'' undated_table \<and>
   \<not> col_all is_num ''net_amount'' undated_table"
  by code_simp


section \<open>Properties of the header-row detection\<close>

lemma scan_header_found:
  "list_ex row_matches data \<Longrightarrow>
   \<exists>j < length data. scan_header i data = i + j \<and> row_matches (data ! j) \<and>
      (\<forall>k < j. \<not> row_matches (data ! k))"
proof (induction data arbitrary: i)
  case Nil
  then show ?case by simp
next
  case (Cons row data)
  show ?case
  proof (cases "row_matches row")
    case True
    then show ?thesis by (intro exI [of _ 0]) simp
  next
    case False
    with Cons.prems have "list_ex row_matches data" by simp
    from Cons.IH [OF this, of "Suc i"] obtain j where j: "j < length data"
      "scan_header (Suc i) data = Suc i + j" "row_matches (data ! j)"
      "\<forall>k < j. \<not> row_matches (data ! k)" by blast
    show ?thesis
    proof (intro exI [of _ "Suc j"] conjI allI impI)
      fix k assume "k < Suc j"
      with j(4) False show "\<not> row_matches ((row # data) ! k)"
        by (cases k) auto
    qed (use j False in auto)
  qed
qed

lemma scan_header_none: "\<not> list_ex row_matches data \<Longrightarrow> scan_header i data = 0"
  by (induction data arbitrary: i) auto

lemma find_header_row_less: "data \<noteq> [] \<Longrightarrow> find_header_row data < length data"
proof (cases "list_ex row_matches data")
  case True
  from scan_header_found [OF this, of 0] show ?thesis
    by (auto simp: find_header_row_def)
next
  case False
  assume "data \<noteq> []"
  with scan_header_none [OF False, of 0] show ?thesis
    by (simp add: find_header_row_def)
qed

lemma header_keywords_chars:
  "kw \<in> set HEADER_KEYWORDS \<Longrightarrow> kw \<noteq> [] \<and> set kw \<subseteq> set keyword_chars"
  by (auto simp: HEADER_KEYWORDS_def keyword_chars_def)

lemma keyword_char_repr_all:
  "\<forall>c::char. py_lower_char c \<in> set keyword_chars \<longrightarrow>
     py_repr_char (CHR 0x27) c = [c] \<and> py_repr_char (CHR 0x22) c = [c]"
  by code_simp


lemma sublist_skip_sep:
  assumes "x \<notin> set kw" and "sublist kw (a @ x # b)"
  shows "sublist kw a \<or> sublist kw b"
proof -
  from assms(2) consider "sublist kw a" | "sublist kw (x # b)"
    | xs1 xs2 where "kw = xs1 @ xs2" "suffix xs1 a" "prefix xs2 (x # b)"
    unfolding sublist_append by blast
  then show ?thesis
  proof cases
    case 1
    then show ?thesis ..
  next
    case 2
    then have "prefix kw (x # b) \<or> sublist kw b"
      by (simp add: sublist_Cons_right)
    with assms(1) show ?thesis
      by (cases kw) (auto simp: prefix_Cons)
  next
    case 3
    show ?thesis
    proof (cases xs2)
      case Nil
      with 3 show ?thesis by (auto intro: suffix_imp_sublist)
    next
      case (Cons y ys)
      with 3 assms(1) show ?thesis by (auto simp: prefix_Cons)
    qed
  qed
qed

lemma sublist_skip_first:
  "x \<notin> set kw \<Longrightarrow> kw \<noteq> [] \<Longrightarrow> sublist kw (x # b) \<Longrightarrow> sublist kw b"
  using sublist_skip_sep [of x kw "[]" b] by auto

lemma sublist_skip_last:
  "x \<notin> set kw \<Longrightarrow> kw \<noteq> [] \<Longrightarrow> sublist kw (a @ [x]) \<Longrightarrow> sublist kw a"
  using sublist_skip_sep [of x kw a "[]"] by auto

lemma py_lower_append [simp]: "py_lower (a @ b) = py_lower a @ py_lower b"
  by (simp add: py_lower_def)

lemma py_lower_Cons [simp]: "py_lower (c # s) = py_lower_char c # py_lower s"
  by (simp add: py_lower_def)

lemma py_lower_Nil [simp]: "py_lower [] = []"
  by (simp add: py_lower_def)

lemma separator_chars:
  "py_lower_char (CHR ''['') = CHR ''[''" "py_lower_char (CHR '']'') = CHR '']''"
  "py_lower_char (CHR '','') = CHR '',''" "py_lower_char (CHR '' '') = CHR '' ''"
  "py_lower_char (CHR 0x27) = CHR 0x27" "py_lower_char (CHR 0x22) = CHR 0x22"
  "py_lower_char (CHR 0x5C) = CHR 0x5C"
  "CHR ''['' \<notin> set keyword_chars" "CHR '']'' \<notin> set keyword_chars"
  "CHR '','' \<notin> set keyword_chars" "CHR '' '' \<notin> set keyword_chars"
  "CHR 0x27 \<notin> set keyword_chars" "CHR 0x22 \<notin> set keyword_chars"
  "CHR 0x5C \<notin> set keyword_chars"
  by code_simp+

lemma join_comma_sublist:
  assumes "kw \<noteq> []" and "set kw \<subseteq> set keyword_chars"
  shows "sublist kw (py_lower (join_comma xs)) \<Longrightarrow> \<exists>x \<in> set xs. sublist kw (py_lower x)"
proof (induction xs rule: join_comma.induct)
  case 1
  with assms(1) show ?case by simp
next
  case (2 x)
  then show ?case by simp
next
  case (3 x y ys)
  have c: "CHR '','' \<notin> set kw" and s: "CHR '' '' \<notin> set kw"
    using assms(2) separator_chars by auto
  from "3.prems" have "sublist kw (py_lower x @ CHR '','' # CHR '' '' # py_lower (join_comma (y # ys)))"
    by (simp add: separator_chars)
  from sublist_skip_sep [OF c this]
  have "sublist kw (py_lower x) \<or> sublist kw (CHR '' '' # py_lower (join_comma (y # ys)))" .
  then show ?case
  proof
    assume "sublist kw (py_lower x)"
    then show ?thesis by simp
  next
    assume "sublist kw (CHR '' '' # py_lower (join_comma (y # ys)))"
    from sublist_skip_first [OF s assms(1) this] "3.IH" show ?thesis by auto
  qed
qed

lemma sublist_join_comma: "x \<in> set xs \<Longrightarrow> sublist x (join_comma xs)"
proof (induction xs rule: join_comma.induct)
  case 1
  then show ?case by simp
next
  case (2 y)
  then show ?case by simp
next
  case (3 y z zs)
  show ?case
  proof (cases "x = y")
    case True
    then show ?thesis by simp
  next
    case False
    with 3 have "sublist x (join_comma (z # zs))" by simp
    then show ?thesis
      by (metis join_comma.simps(3) sublist_append_leftI sublist_order.order.trans)
  qed
qed


lemma control_chars_not_printable:
  "\<not> py_isprintable (CHR 0x09)" "\<not> py_isprintable (CHR 0x0A)" "\<not> py_isprintable (CHR 0x0D)"
  by code_simp+

lemma py_repr_char_printable:
  "py_isprintable ch \<Longrightarrow>
   py_repr_char q ch = (if ch = q \<or> ch = CHR 0x5C then [CHR 0x5C, ch] else [ch])"
  using control_chars_not_printable by (auto simp: py_repr_char_def)

lemma py_repr_shape:
  "\<exists>q. (q = CHR 0x27 \<or> q = CHR 0x22) \<and> py_repr c = q # concat (map (py_repr_char q) c) @ [q]"
  by (simp add: py_repr_def Let_def)

lemma quote_facts:
  assumes "q = CHR 0x27 \<or> q = CHR 0x22" and "set kw \<subseteq> set keyword_chars"
  shows "py_lower_char q = q" and "q \<notin> set kw"
    and "py_lower_char (CHR 0x5C) = CHR 0x5C" and "CHR 0x5C \<notin> set kw"
  using assms separator_chars by auto

lemma prefix_body_printable:
  assumes "q = CHR 0x27 \<or> q = CHR 0x22" and "set kw \<subseteq> set keyword_chars"
  shows "list_all py_isprintable c \<Longrightarrow>
         prefix kw (py_lower (concat (map (py_repr_char q) c))) \<Longrightarrow> prefix kw (py_lower c)"
  using assms(2)
proof (induction c arbitrary: kw)
  case Nil
  then show ?case by simp
next
  case (Cons ch c)
  show ?case
  proof (cases kw)
    case Nil
    then show ?thesis by simp
  next
    case kw: (Cons k kw')
    from Cons.prems(1) have pr: "py_isprintable ch" and rest: "list_all py_isprintable c"
      by simp_all
    from Cons.prems(3) kw have k: "k \<in> set keyword_chars" and kw': "set kw' \<subseteq> set keyword_chars"
      by auto
    show ?thesis
    proof (cases "ch = q \<or> ch = CHR 0x5C")
      case True
      with Cons.prems(2) kw pr have "k = CHR 0x5C"
        by (simp add: py_repr_char_printable separator_chars)
      with k separator_chars show ?thesis by simp
    next
      case False
      with Cons.prems(2) kw pr have "k = py_lower_char ch"
        and "prefix kw' (py_lower (concat (map (py_repr_char q) c)))"
        by (simp_all add: py_repr_char_printable)
      with Cons.IH [OF rest _ kw'] kw show ?thesis by simp
    qed
  qed
qed

lemma sublist_body_printable:
  assumes "q = CHR 0x27 \<or> q = CHR 0x22" and "set kw \<subseteq> set keyword_chars" and "kw \<noteq> []"
  shows "list_all py_isprintable c \<Longrightarrow>
         sublist kw (py_lower (concat (map (py_repr_char q) c))) \<Longrightarrow> sublist kw (py_lower c)"
proof (induction c)
  case Nil
  then show ?case by simp
next
  case (Cons ch c)
  from Cons.prems(1) have pr: "py_isprintable ch" and rest: "list_all py_isprintable c"
    by simp_all
  note qf = quote_facts [OF assms(1,2)]
  show ?case
  proof (cases "ch = q \<or> ch = CHR 0x5C")
    case True
    with Cons.prems(2) pr
    have s: "sublist kw (CHR 0x5C # py_lower_char ch # py_lower (concat (map (py_repr_char q) c)))"
      by (simp add: py_repr_char_printable qf)
    from True qf have "py_lower_char ch \<notin> set kw" by auto
    from sublist_skip_first [OF this assms(3) sublist_skip_first [OF qf(4) assms(3) s]]
    have "sublist kw (py_lower (concat (map (py_repr_char q) c)))" .
    from Cons.IH [OF rest this] show ?thesis
      by (simp add: sublist_Cons_right)
  next
    case False
    with pr have body: "py_lower (concat (map (py_repr_char q) (ch # c))) =
        py_lower_char ch # py_lower (concat (map (py_repr_char q) c))"
      by (simp add: py_repr_char_printable)
    from Cons.prems(2) consider
      "prefix kw (py_lower (concat (map (py_repr_char q) (ch # c))))"
      | "sublist kw (py_lower (concat (map (py_repr_char q) c)))"
      unfolding body sublist_Cons_right by blast
    then show ?thesis
    proof cases
      case 1
      from prefix_body_printable [OF assms(1,2) Cons.prems(1) this] show ?thesis
        by (rule prefix_imp_sublist)
    next
      case 2
      from Cons.IH [OF rest this] show ?thesis
        by (simp add: sublist_Cons_right)
    qed
  qed
qed

lemma prefix_body_keyword:
  assumes "q = CHR 0x27 \<or> q = CHR 0x22"
  shows "set kw \<subseteq> set keyword_chars \<Longrightarrow> prefix kw (py_lower c) \<Longrightarrow>
         prefix kw (py_lower (concat (map (py_repr_char q) c)))"
proof (induction c arbitrary: kw)
  case Nil
  then show ?case by simp
next
  case (Cons ch c)
  show ?case
  proof (cases kw)
    case Nil
    then show ?thesis by simp
  next
    case kw: (Cons k kw')
    with Cons.prems have k: "py_lower_char ch \<in> set keyword_chars" and "k = py_lower_char ch"
      and kw': "set kw' \<subseteq> set keyword_chars" and p: "prefix kw' (py_lower c)"
      by auto
    from k assms keyword_char_repr_all have "py_repr_char q ch = [ch]"
      by blast
    with Cons.IH [OF kw' p] kw \<open>k = py_lower_char ch\<close> show ?thesis
      by simp
  qed
qed

lemma sublist_body_keyword:
  assumes "q = CHR 0x27 \<or> q = CHR 0x22" and "set kw \<subseteq> set keyword_chars"
  shows "sublist kw (py_lower c) \<Longrightarrow> sublist kw (py_lower (concat (map (py_repr_char q) c)))"
proof (induction c)
  case Nil
  then show ?case by simp
next
  case (Cons ch c)
  from Cons.prems consider "prefix kw (py_lower (ch # c))" | "sublist kw (py_lower c)"
    by (auto simp: sublist_Cons_right)
  then show ?case
  proof cases
    case 1
    from prefix_body_keyword [OF assms(1,2) this] show ?thesis
      by (rule prefix_imp_sublist)
  next
    case 2
    from Cons.IH [OF this] show ?thesis
      by (simp add: sublist_append)
  qed
qed

lemma keyword_in_cell_imp_repr:
  assumes "set kw \<subseteq> set keyword_chars" and "sublist kw (py_lower c)"
  shows "sublist kw (py_lower (py_repr c))"
proof -
  from py_repr_shape [of c] obtain q where q: "q = CHR 0x27 \<or> q = CHR 0x22"
    and r: "py_repr c = q # concat (map (py_repr_char q) c) @ [q]" by blast
  from sublist_body_keyword [OF q assms] show ?thesis
    by (simp add: r sublist_Cons_right sublist_append)
qed

lemma keyword_in_repr_imp_cell:
  assumes "set kw \<subseteq> set keyword_chars" and "kw \<noteq> []" and "list_all py_isprintable c"
    and "sublist kw (py_lower (py_repr c))"
  shows "sublist kw (py_lower c)"
proof -
  from py_repr_shape [of c] obtain q where q: "q = CHR 0x27 \<or> q = CHR 0x22"
    and r: "py_repr c = q # concat (map (py_repr_char q) c) @ [q]" by blast
  note qf = quote_facts [OF q assms(1)]
  from assms(4) have "sublist kw (q # (py_lower (concat (map (py_repr_char q) c)) @ [q]))"
    by (simp add: r qf)
  from sublist_skip_first [OF qf(2) assms(2) this]
  have "sublist kw (py_lower (concat (map (py_repr_char q) c)) @ [q])" .
  from sublist_skip_last [OF qf(2) assms(2) this]
  have "sublist kw (py_lower (concat (map (py_repr_char q) c)))" .
  from sublist_body_printable [OF q assms(1,2,3) this] show ?thesis .
qed

lemma keyword_in_cell_imp_match:
  assumes "spec_row_contains_keyword row"
  shows "row_matches row"
proof -
  from assms obtain c kw where c: "c \<in> set row" and kw: "kw \<in> set HEADER_KEYWORDS"
    and s: "sublist kw (py_lower c)"
    by (auto simp: spec_row_contains_keyword_def list_ex_iff)
  from header_keywords_chars [OF kw] have k: "set kw \<subseteq> set keyword_chars" by simp
  from keyword_in_cell_imp_repr [OF k s] have "sublist kw (py_lower (py_repr c))" .
  moreover from c have "sublist (py_repr c) (join_comma (map py_repr row))"
    by (intro sublist_join_comma) simp
  then have "sublist (py_lower (py_repr c)) (py_lower (join_comma (map py_repr row)))"
    unfolding py_lower_def by (rule map_mono_sublist)
  ultimately have "sublist kw (py_lower (join_comma (map py_repr row)))"
    by (rule sublist_order.order.trans)
  then have "sublist kw (py_lower (py_str_list row))"
    by (simp add: py_str_list_def sublist_Cons_right sublist_append)
  with c kw show ?thesis
    by (auto simp: row_matches_def list_ex_iff)
qed

lemma match_imp_keyword_in_cell:
  assumes "row_matches row" and "printable_row row"
  shows "spec_row_contains_keyword row"
proof -
  from assms(1) obtain kw where kw: "kw \<in> set HEADER_KEYWORDS"
    and s: "sublist kw (py_lower (py_str_list row))"
    by (auto simp: row_matches_def list_ex_iff)
  from header_keywords_chars [OF kw] have k: "set kw \<subseteq> set keyword_chars" and ne: "kw \<noteq> []"
    by simp_all
  have o: "CHR ''['' \<notin> set kw" and cl: "CHR '']'' \<notin> set kw"
    using k separator_chars by auto
  from s have "sublist kw (CHR ''['' # (py_lower (join_comma (map py_repr row)) @ [CHR '']'']))"
    by (simp add: py_str_list_def separator_chars)
  from sublist_skip_last [OF cl ne sublist_skip_first [OF o ne this]]
  have "sublist kw (py_lower (join_comma (map py_repr row)))" .
  from join_comma_sublist [OF ne k this] obtain c where c: "c \<in> set row"
    and "sublist kw (py_lower (py_repr c))" by auto
  moreover from assms(2) c have "list_all py_isprintable c"
    by (simp add: printable_row_def list_all_iff)
  ultimately have "sublist kw (py_lower c)"
    using keyword_in_repr_imp_cell [OF k ne] by blast
  with c kw show ?thesis
    by (auto simp: spec_row_contains_keyword_def list_ex_iff)
qed


lemma read_worksheet_Inr:
  assumes "read_worksheet data = Inr T"
  shows "data \<noteq> []"
    and "columns T = data ! find_header_row data"
    and "rows T = map (\<lambda>r. map Str r @ replicate (length (data ! find_header_row data) - length r) Null)
                      (drop (Suc (find_header_row data)) data)"
  using assms
  by (auto simp: read_worksheet_def DataFrame_def Let_def split: if_splits)

text \<open>
  C3: what the scan of lines 89 to 94 does. The header row is the first row, from the
  top, whose rendering \<^verbatim>\<open>str(row)\<close> in lower case has one of the four keywords as a
  substring (the condition \<open>row_matches\<close>); without such a row it is row 0. The frame
  of the worksheet has the cells of that row as its column labels and the rows below
  it as its rows, short rows padded with missing cells; the rows above are not in it.
  A row in which some cell has a keyword as a case-insensitive substring satisfies the
  condition, and for a row of printable characters the condition says exactly that:
  on worksheets of printable characters the scan finds the row that the claim
  describes. On other rows \<^verbatim>\<open>str\<close> prints a control character as an escape
  sequence, and the letters of the escape take part in the match; there the scan can
  stop at a row of which no cell contains a keyword (\<open>escaped_sheet\<close> below).
\<close>

theorem header_row_detection:
  "(list_ex row_matches data \<longrightarrow>
      find_header_row data < length data \<and> row_matches (data ! find_header_row data) \<and>
      (\<forall>j < find_header_row data. \<not> row_matches (data ! j))) \<and>
   (\<not> list_ex row_matches data \<longrightarrow> find_header_row data = 0) \<and>
   (\<forall>T. read_worksheet data = Inr T \<longrightarrow>
      columns T = data ! find_header_row data \<and>
      rows T = map (\<lambda>r. map Str r @ replicate (length (data ! find_header_row data) - length r) Null)
                   (drop (Suc (find_header_row data)) data)) \<and>
   (spec_row_contains_keyword row \<longrightarrow> row_matches row) \<and>
   (printable_row row \<longrightarrow> row_matches row = spec_row_contains_keyword row)"
proof (intro conjI impI allI)
  assume "list_ex row_matches data"
  from scan_header_found [OF this, of 0]
  show "find_header_row data < length data" "row_matches (data ! find_header_row data)"
    "\<And>j. j < find_header_row data \<Longrightarrow> \<not> row_matches (data ! j)"
    by (auto simp: find_header_row_def)
next
  assume "\<not> list_ex row_matches data"
  then show "find_header_row data = 0"
    by (simp add: find_header_row_def scan_header_none)
next
  fix T assume "read_worksheet data = Inr T"
  from read_worksheet_Inr [OF this]
  show "columns T = data ! find_header_row data"
    "rows T = map (\<lambda>r. map Str r @ replicate (length (data ! find_header_row data) - length r) Null)
                   (drop (Suc (find_header_row data)) data)"
    by simp_all
next
  assume "spec_row_contains_keyword row"
  then show "row_matches row" by (rule keyword_in_cell_imp_match)
next
  assume "printable_row row"
  then show "row_matches row = spec_row_contains_keyword row"
    using keyword_in_cell_imp_match match_imp_keyword_in_cell by blast
qed

lemma header_examples:
  "list_ex row_matches report_sheet"
  "find_header_row report_sheet = 1"
  "\<not> row_matches (report_sheet ! 0)"
  "read_worksheet report_sheet =
     Inr \<lparr>columns = [''_id'', ''Name'', ''converteddate''],
          rows = [[Str ''3'', Str ''A'', Str ''2024-01-05'']]\<rparr>"
  "spec_row_contains_keyword (report_sheet ! 1)"
  "printable_row (report_sheet ! 1)"
  "\<not> list_ex row_matches [[''Exported report'']]"
  by code_simp+

theorem header_row_detection_witness:
  "list_ex row_matches report_sheet \<and>
   find_header_row report_sheet = 1 \<and>
   row_matches (report_sheet ! 1) \<and>
   \<not> row_matches (report_sheet ! 0) \<and>
   read_worksheet report_sheet =
     Inr \<lparr>columns = [''_id'', ''Name'', ''converteddate''],
          rows = [[Str ''3'', Str ''A'', Str ''2024-01-05'']]\<rparr> \<and>
   spec_row_contains_keyword (report_sheet ! 1) \<and>
   printable_row (report_sheet ! 1) \<and>
   \<not> list_ex row_matches [[''Exported report'']] \<and>
   find_header_row [[''Exported report'']] = 0"
proof -
  note e = header_examples
  from header_row_detection [of report_sheet "report_sheet ! 1"] e(1)
  have "row_matches (report_sheet ! find_header_row report_sheet)"
    by blast
  then have a: "row_matches (report_sheet ! 1)"
    unfolding e(2) .
  from header_row_detection [of "[[''Exported report'']]" "report_sheet ! 1"] e(7)
  have b: "find_header_row [[''Exported report'']] = 0"
    by blast
  show ?thesis
    by (simp only: e a b simp_thms)
qed

text \<open>
  The failing input of C3: a worksheet whose first row is a title with a line break,
  above the header row and one record. \<^verbatim>\<open>str\<close> prints the line feed as a backslash
  and the letter n, so the rendering of the title row holds "name"; the scan stops at
  row 0, although no cell of that row contains a keyword and the row below it does.
  The title becomes the column labels and the header row becomes a record.
\<close>

theorem header_row_detection_counterexample:
  "find_header_row escaped_sheet = 0 \<and>
   \<not> spec_row_contains_keyword (escaped_sheet ! 0) \<and>
   spec_row_contains_keyword (escaped_sheet ! 1) \<and>
   read_worksheet escaped_sheet =
     Inr \<lparr>columns = [''Enrollment report'' @ [CHR 0x0A] @ ''amended 2024-01-07'', [], []],
          rows = [[Str ''_id'', Str ''name'', Str ''converteddate''],
                  [Str ''1'', Str ''A'', Str ''2024-01-05'']]\<rparr>"
  by code_simp


end
